theory Spec2Isabelle
  imports Main
begin

section \<open>Node bootstrap (setup.py of the Slurm controller module)\<close>

text \<open>
  A shallow embedding of \<^verbatim>\<open>setup.py\<close>. The script is imperative Python: it writes files,
  runs external commands, logs and sleeps. Every function of the script becomes a
  function from a \<open>world\<close> (the state the script can observe or change) to a result and
  the world after the call. An exception is a result \<open>Inl e\<close>; the world is returned in
  that case too, because what was done before a failure is part of what is verified.
  Code that the script imports from other modules (\<^verbatim>\<open>util\<close>, \<^verbatim>\<open>conf\<close>,
  \<^verbatim>\<open>slurmsync\<close>, \<^verbatim>\<open>setup_network_storage\<close>) and the operating system enter as an
  environment record \<open>env\<close> over which every theorem is universally quantified.
\<close>

subsection \<open>Strings and paths\<close>

definition nl :: char where
  "nl = CHR 0x0A"

definition sq :: char where
  "sq = CHR 0x27"

definition dq :: char where
  "dq = CHR 0x22"

definition bs :: char where
  "bs = CHR 0x5C"

text \<open>\<^verbatim>\<open>s.startswith(p)\<close>, \<^verbatim>\<open>s.endswith(p)\<close> and \<^verbatim>\<open>sub in s\<close> on strings.\<close>

fun startswith :: "string \<Rightarrow> string \<Rightarrow> bool" where
  "startswith s [] = True"
| "startswith [] (p # ps) = False"
| "startswith (c # cs) (p # ps) = (c = p \<and> startswith cs ps)"

definition endswith :: "string \<Rightarrow> string \<Rightarrow> bool" where
  "endswith s p = startswith (rev s) (rev p)"

fun str_in :: "string \<Rightarrow> string \<Rightarrow> bool" where
  "str_in sub [] = (sub = [])"
| "str_in sub (c # cs) = (startswith (c # cs) sub \<or> str_in sub cs)"

text \<open>\<^verbatim>\<open>s.strip()\<close>: ASCII white space is removed at both ends.\<close>

definition is_space :: "char \<Rightarrow> bool" where
  "is_space c = (c \<in> set [CHR '' '', CHR 0x09, CHR 0x0A, CHR 0x0B, CHR 0x0C, CHR 0x0D])"

definition strip :: "string \<Rightarrow> string" where
  "strip s = rev (dropWhile is_space (rev (dropWhile is_space s)))"

text \<open>\<^verbatim>\<open>sep.join(xs)\<close>.\<close>

fun join_with :: "string \<Rightarrow> string list \<Rightarrow> string" where
  "join_with sep [] = []"
| "join_with sep [x] = x"
| "join_with sep (x # y # ys) = x @ sep @ join_with sep (y # ys)"

text \<open>A text made of lines, each closed by a newline.\<close>

definition text_of_lines :: "string list \<Rightarrow> string" where
  "text_of_lines ls = concat (map (\<lambda>l. l @ [nl]) ls)"

text \<open>
  \<^verbatim>\<open>f.readlines()\<close>: the lines of a text, each with its newline; only the last line
  can lack one.
\<close>

fun readlines :: "string \<Rightarrow> string list" where
  "readlines [] = []"
| "readlines (c # cs) =
     (if c = nl then [c] # readlines cs
      else (case readlines cs of [] \<Rightarrow> [[c]] | l # ls \<Rightarrow> (c # l) # ls))"

text \<open>Decimal formatting of integers, as an f-string does it.\<close>

fun str_nat :: "nat \<Rightarrow> string" where
  "str_nat n =
     (if n < 10 then [char_of (48 + n)]
      else str_nat (n div 10) @ [char_of (48 + n mod 10)])"

declare str_nat.simps [simp del]

definition str_int :: "int \<Rightarrow> string" where
  "str_int i = (if i < 0 then ''-'' @ str_nat (nat (- i)) else str_nat (nat i))"

text \<open>An optional value in an f-string: \<^verbatim>\<open>None\<close> prints as the word None.\<close>

definition str_opt :: "string option \<Rightarrow> string" where
  "str_opt v = (case v of None \<Rightarrow> ''None'' | Some s \<Rightarrow> s)"

definition str_timeout :: "int option \<Rightarrow> string" where
  "str_timeout v = (case v of None \<Rightarrow> ''None'' | Some t \<Rightarrow> str_int t)"

text \<open>
  \<^verbatim>\<open>os.path.join(a, b)\<close>, which is also what \<^verbatim>\<open>Path(a) / b\<close> denotes: an absolute
  \<open>b\<close> replaces \<open>a\<close>, otherwise one separator stands between them.
\<close>

definition path_join :: "string \<Rightarrow> string \<Rightarrow> string" where
  "path_join a b =
     (if startswith b ''/'' then b
      else if a = [] \<or> endswith a ''/'' then a @ b
      else a @ ''/'' @ b)"

text \<open>\<^verbatim>\<open>Path(p).name\<close>: the last component of a path.\<close>

definition basename :: "string \<Rightarrow> string" where
  "basename p = rev (takeWhile (\<lambda>c. c \<noteq> CHR ''/'') (rev p))"

subsection \<open>Errors, the host and the world\<close>

datatype os_error =
    FileNotFoundError
  | FileExistsError
  | IsADirectoryError
  | PermissionError
  | OtherOSError

text \<open>
  The exceptions the script distinguishes. \<open>OSError\<close> stands for the Python class with
  its subclasses; \<open>TimeoutExpired\<close> and \<open>CalledProcessError\<close> carry the command line,
  the latter the return code too; \<open>Exception\<close> is any other exception, with its message.
\<close>

datatype error =
    OSError os_error
  | TimeoutExpired string
  | CalledProcessError string int
  | DeffetiveStoredConfigError string
  | Exception string

datatype level = DEBUG | INFO | WARNING | ERROR | FATAL

text \<open>
  The file system is a flat map from absolute paths to inodes. A symbolic link holds the
  path it points at. Permission bits are not tracked.
\<close>

datatype nkind = Reg string | Dir | Symlink string

record inode =
  kind :: nkind
  st_uid :: int
  st_gid :: int

text \<open>
  The host: what external commands can change. \<open>passwd\<close> and \<open>grp\<close> are the user and
  group databases (name to numeric id), \<open>euid\<close> and \<open>egid\<close> the ids the script runs as.
\<close>

record host =
  fs :: "string \<rightharpoonup> inode"
  passwd :: "string \<rightharpoonup> int"
  grp :: "string \<rightharpoonup> int"
  euid :: int
  egid :: int

text \<open>
  \<^verbatim>\<open>lookup().cfg\<close>, as far as the script reads it. \<open>cfg_items\<close> holds the keys read with
  \<^verbatim>\<open>cfg.get(key, default)\<close>: an absent key is \<open>None\<close>, a key set to null is
  \<open>Some None\<close>. \<open>cloudsql_secret\<close> is the truth value of that entry.
\<close>

record hybrid_conf =
  slurm_uid :: int
  slurm_gid :: int

record config =
  cfg_items :: "string \<rightharpoonup> int option"
  controller_state_disk_device_name :: "string option"
  cloudsql_secret :: bool
  slurm_cluster_name :: string
  hybrid :: bool
  hybrid_conf :: hybrid_conf
  slurm_log_dir :: string

text \<open>
  The object \<^verbatim>\<open>util.lookup()\<close> returns. Its class is not part of the script; the
  attributes the script reads are fields here.
\<close>

record lookup =
  cfg :: config
  instance_role :: string
  is_controller :: bool
  is_login_node :: bool
  is_hybrid_setup :: bool
  hybrid_setup :: bool
  control_host :: string
  control_addr :: "string option"
  control_host_port :: string
  hostname :: string

text \<open>
  What became of a child process: it could not be started, it ran out of time, or it
  exited with a status, having written to its standard output and error.
\<close>

datatype outcome = SpawnError os_error | TimedOut | Exited int string string

text \<open>
  What the process does to the outside, in the order it does it: a command line handed
  to \<^verbatim>\<open>util.run\<close> with what became of it, a call of \<^verbatim>\<open>time.sleep\<close> with its seconds, a
  call of \<^verbatim>\<open>util.fetch_config\<close>.
\<close>

datatype event = Ran string outcome | Slept nat | Fetched

text \<open>The command lines of a trace.\<close>

fun ran_cmds :: "event list \<Rightarrow> string list" where
  "ran_cmds [] = []"
| "ran_cmds (Ran c out # es) = c # ran_cmds es"
| "ran_cmds (Slept n # es) = ran_cmds es"
| "ran_cmds (Fetched # es) = ran_cmds es"

text \<open>
  The world: the host, and what the process itself accumulates. \<open>logs\<close> are the records
  handed to the logger and \<open>trace\<close> the events so far, both oldest first; \<open>fetches\<close>
  counts the calls of \<^verbatim>\<open>util.fetch_config\<close>; \<open>lkp\<close> is the active configuration behind
  \<^verbatim>\<open>lookup()\<close>.
\<close>

record world =
  host :: host
  logs :: "(level \<times> string) list"
  trace :: "event list"
  fetches :: nat
  lkp :: lookup

type_synonym 'a res = "(error + 'a) \<times> world"

type_synonym 'a act = "world \<Rightarrow> 'a res"

definition returnE :: "'a \<Rightarrow> 'a act" where
  "returnE x w = (Inr x, w)"

definition raiseE :: "error \<Rightarrow> 'a act" where
  "raiseE e w = (Inl e, w)"

definition bindE :: "'a act \<Rightarrow> ('a \<Rightarrow> 'b act) \<Rightarrow> 'b act" where
  "bindE m f w = (case m w of (Inl e, w') \<Rightarrow> (Inl e, w') | (Inr x, w') \<Rightarrow> f x w')"

definition thenE :: "'a act \<Rightarrow> 'b act \<Rightarrow> 'b act" where
  "thenE m n = bindE m (\<lambda>_. n)"

text \<open>A block of statements: they run in order up to the first that raises.\<close>

fun seqE :: "unit act list \<Rightarrow> unit act" where
  "seqE [] w = (Inr (), w)"
| "seqE (a # as) w = (case a w of (Inl e, w') \<Rightarrow> (Inl e, w') | (Inr _, w') \<Rightarrow> seqE as w')"

definition whenE :: "bool \<Rightarrow> unit act \<Rightarrow> unit act" where
  "whenE b a = (if b then a else returnE ())"

definition log_at :: "level \<Rightarrow> string \<Rightarrow> unit act" where
  "log_at l m w = (Inr (), w\<lparr>logs := logs w @ [(l, m)]\<rparr>)"

definition sleep :: "nat \<Rightarrow> unit act" where
  "sleep n w = (Inr (), w\<lparr>trace := trace w @ [Slept n]\<rparr>)"

subsection \<open>File operations of the Python library\<close>

definition set_fs :: "(string \<rightharpoonup> inode) \<Rightarrow> world \<Rightarrow> world" where
  "set_fs f w = w\<lparr>host := (host w)\<lparr>fs := f\<rparr>\<rparr>"

text \<open>
  The layout of a host: what kind of node each path is, whoever owns it.
\<close>

definition layout :: "host \<Rightarrow> (string \<rightharpoonup> nkind)" where
  "layout h p = map_option kind (fs h p)"

text \<open>
  Following symbolic links from a path, at most \<open>n\<close> of them: the path reached (which may
  not exist), or \<open>None\<close> for a chain that is too long.
\<close>

fun follow :: "(string \<rightharpoonup> nkind) \<Rightarrow> nat \<Rightarrow> string \<Rightarrow> string option" where
  "follow l n p =
     (case l p of
        Some (Symlink t) \<Rightarrow> (if n = 0 then None else follow l (n - 1) t)
      | _ \<Rightarrow> Some p)"

declare follow.simps [simp del]

text \<open>What \<^verbatim>\<open>os.stat(p)\<close> sees: the inode behind \<open>p\<close> after following links, and its path.\<close>

definition resolve :: "world \<Rightarrow> string \<Rightarrow> (string \<times> inode) option" where
  "resolve w p =
     (case follow (layout (host w)) 40 p of
        None \<Rightarrow> None
      | Some q \<Rightarrow> (case fs (host w) q of None \<Rightarrow> None | Some i \<Rightarrow> Some (q, i)))"

text \<open>\<^verbatim>\<open>Path.exists()\<close> follows links: a link whose target is missing does not exist.\<close>

definition path_exists :: "world \<Rightarrow> string \<Rightarrow> bool" where
  "path_exists w p = (resolve w p \<noteq> None)"

definition is_file :: "world \<Rightarrow> string \<Rightarrow> bool" where
  "is_file w p =
     (case resolve w p of
        Some (q, i) \<Rightarrow> (case kind i of Reg _ \<Rightarrow> True | _ \<Rightarrow> False)
      | None \<Rightarrow> False)"

definition is_dir :: "world \<Rightarrow> string \<Rightarrow> bool" where
  "is_dir w p =
     (case resolve w p of
        Some (q, i) \<Rightarrow> (case kind i of Dir \<Rightarrow> True | _ \<Rightarrow> False)
      | None \<Rightarrow> False)"

text \<open>\<^verbatim>\<open>Path.is_symlink()\<close> looks at the path itself.\<close>

definition is_symlink :: "world \<Rightarrow> string \<Rightarrow> bool" where
  "is_symlink w p =
     (case fs (host w) p of
        Some i \<Rightarrow> (case kind i of Symlink _ \<Rightarrow> True | _ \<Rightarrow> False)
      | None \<Rightarrow> False)"

definition unlink :: "string \<Rightarrow> unit act" where
  "unlink p w =
     (case fs (host w) p of
        None \<Rightarrow> (Inl (OSError FileNotFoundError), w)
      | Some i \<Rightarrow>
          (case kind i of
             Dir \<Rightarrow> (Inl (OSError IsADirectoryError), w)
           | _ \<Rightarrow> (Inr (), set_fs ((fs (host w))(p := None)) w)))"

text \<open>\<^verbatim>\<open>Path.symlink_to(tgt)\<close> fails when anything, a link included, is at the path.\<close>

definition symlink_to :: "string \<Rightarrow> string \<Rightarrow> unit act" where
  "symlink_to p tgt w =
     (if fs (host w) p \<noteq> None then (Inl (OSError FileExistsError), w)
      else (Inr (), set_fs ((fs (host w))(p \<mapsto>
              \<lparr>kind = Symlink tgt, st_uid = euid (host w), st_gid = egid (host w)\<rparr>)) w))"

text \<open>Opening for writing truncates or creates (\<^verbatim>\<open>write_text\<close>, \<^verbatim>\<open>open(p, "w")\<close>).\<close>

definition write_text :: "string \<Rightarrow> string \<Rightarrow> unit act" where
  "write_text p s w =
     (case follow (layout (host w)) 40 p of
        None \<Rightarrow> (Inl (OSError OtherOSError), w)
      | Some q \<Rightarrow>
          (case fs (host w) q of
             None \<Rightarrow> (Inr (), set_fs ((fs (host w))(q \<mapsto>
                 \<lparr>kind = Reg s, st_uid = euid (host w), st_gid = egid (host w)\<rparr>)) w)
           | Some i \<Rightarrow>
               (case kind i of
                  Reg _ \<Rightarrow> (Inr (), set_fs ((fs (host w))(q \<mapsto> i\<lparr>kind := Reg s\<rparr>)) w)
                | Dir \<Rightarrow> (Inl (OSError IsADirectoryError), w)
                | Symlink _ \<Rightarrow> (Inl (OSError OtherOSError), w))))"

text \<open>Opening for appending (\<^verbatim>\<open>open(p, "a")\<close>) and writing one string.\<close>

definition append_text :: "string \<Rightarrow> string \<Rightarrow> unit act" where
  "append_text p s w =
     (case follow (layout (host w)) 40 p of
        None \<Rightarrow> (Inl (OSError OtherOSError), w)
      | Some q \<Rightarrow>
          (case fs (host w) q of
             None \<Rightarrow> (Inr (), set_fs ((fs (host w))(q \<mapsto>
                 \<lparr>kind = Reg s, st_uid = euid (host w), st_gid = egid (host w)\<rparr>)) w)
           | Some i \<Rightarrow>
               (case kind i of
                  Reg c \<Rightarrow> (Inr (), set_fs ((fs (host w))(q \<mapsto> i\<lparr>kind := Reg (c @ s)\<rparr>)) w)
                | Dir \<Rightarrow> (Inl (OSError IsADirectoryError), w)
                | Symlink _ \<Rightarrow> (Inl (OSError OtherOSError), w))))"

text \<open>Opening for reading (\<^verbatim>\<open>open(p, "r")\<close>) and reading the whole file.\<close>

definition read_text :: "string \<Rightarrow> string act" where
  "read_text p w =
     (case resolve w p of
        None \<Rightarrow> (Inl (OSError FileNotFoundError), w)
      | Some (q, i) \<Rightarrow>
          (case kind i of
             Reg c \<Rightarrow> (Inr c, w)
           | Dir \<Rightarrow> (Inl (OSError IsADirectoryError), w)
           | Symlink _ \<Rightarrow> (Inl (OSError OtherOSError), w)))"

text \<open>\<^verbatim>\<open>os.makedirs(p, exist_ok=True)\<close>.\<close>

definition makedirs :: "string \<Rightarrow> unit act" where
  "makedirs p w =
     (case fs (host w) p of
        None \<Rightarrow> (Inr (), set_fs ((fs (host w))(p \<mapsto>
            \<lparr>kind = Dir, st_uid = euid (host w), st_gid = egid (host w)\<rparr>)) w)
      | Some i \<Rightarrow> (if is_dir w p then (Inr (), w) else (Inl (OSError FileExistsError), w)))"

text \<open>\<^verbatim>\<open>os.chmod\<close>: the file must exist; the bits themselves are not tracked.\<close>

definition chmod :: "string \<Rightarrow> nat \<Rightarrow> unit act" where
  "chmod p mode w =
     (if path_exists w p then (Inr (), w) else (Inl (OSError FileNotFoundError), w))"

text \<open>\<^verbatim>\<open>path.stat()\<close>, of which the script reads \<^verbatim>\<open>st_uid\<close> and \<^verbatim>\<open>st_gid\<close>.\<close>

definition stat :: "string \<Rightarrow> inode act" where
  "stat p w =
     (case resolve w p of
        None \<Rightarrow> (Inl (OSError FileNotFoundError), w)
      | Some (q, i) \<Rightarrow> (Inr i, w))"

text \<open>
  \<^verbatim>\<open>os.chown(p, uid, gid)\<close>. The ids are converted to \<^verbatim>\<open>uid_t\<close> and \<^verbatim>\<open>gid_t\<close> before
  anything else: an id below \<open>-1\<close> or above \<open>2^32 - 1\<close> raises \<^verbatim>\<open>OverflowError\<close> and
  nothing is changed. The call follows symbolic links. An id of \<open>-1\<close> leaves that id as
  it is, and so does \<open>2^32 - 1\<close>, which is \<open>-1\<close> as an unsigned number of 32 bits.
\<close>

definition os_chown :: "string \<Rightarrow> int \<Rightarrow> int \<Rightarrow> unit act" where
  "os_chown p uid gid w =
     (if uid < - 1 \<or> 4294967295 < uid \<or> gid < - 1 \<or> 4294967295 < gid then
        (Inl (Exception ''OverflowError''), w)
      else
        (case resolve w p of
           None \<Rightarrow> (Inl (OSError FileNotFoundError), w)
         | Some (q, i) \<Rightarrow>
             (Inr (), set_fs ((fs (host w))(q \<mapsto>
                i\<lparr>st_uid := (if uid = - 1 \<or> uid = 4294967295 then st_uid i else uid),
                  st_gid := (if gid = - 1 \<or> gid = 4294967295 then st_gid i else gid)\<rparr>)) w)))"

text \<open>\<^verbatim>\<open>grp.getgrnam(name).gr_gid\<close> and \<^verbatim>\<open>pwd.getpwnam(name).pw_uid\<close>.\<close>

definition getgrnam :: "string \<Rightarrow> int act" where
  "getgrnam name w =
     (case grp (host w) name of
        None \<Rightarrow> (Inl (Exception ''KeyError''), w)
      | Some g \<Rightarrow> (Inr g, w))"

definition getpwnam :: "string \<Rightarrow> int act" where
  "getpwnam name w =
     (case passwd (host w) name of
        None \<Rightarrow> (Inl (Exception ''KeyError''), w)
      | Some u \<Rightarrow> (Inr u, w))"

text \<open>\<^verbatim>\<open>shutil.chown(p, user=u, group=g)\<close> with names.\<close>

definition shutil_chown :: "string \<Rightarrow> string \<Rightarrow> string \<Rightarrow> unit act" where
  "shutil_chown p user grpname w =
     (case passwd (host w) user of
        None \<Rightarrow> (Inl (Exception ''LookupError''), w)
      | Some u \<Rightarrow>
          (case grp (host w) grpname of
             None \<Rightarrow> (Inl (Exception ''LookupError''), w)
           | Some g \<Rightarrow> os_chown p u g w))"

text \<open>\<^verbatim>\<open>shutil.copyfile(src, dst)\<close>.\<close>

definition copyfile :: "string \<Rightarrow> string \<Rightarrow> unit act" where
  "copyfile src dst = bindE (read_text src) (\<lambda>c. write_text dst c)"

text \<open>
  A directory tree as \<^verbatim>\<open>os.walk\<close> lists it: files and directories by name.
\<close>

datatype dtree = FileT string | DirT string "dtree list"

fun tname :: "dtree \<Rightarrow> string" where
  "tname (FileT n) = n"
| "tname (DirT n es) = n"

fun is_dirT :: "dtree \<Rightarrow> bool" where
  "is_dirT (FileT n) = False"
| "is_dirT (DirT n es) = True"

text \<open>
  \<^verbatim>\<open>os.walk(root)\<close>, top down: for a directory the triple of its path, the names of
  its subdirectories and the names of its files, then the walks of the subdirectories.
  A path that is no directory yields nothing.
\<close>

fun walk :: "string \<Rightarrow> dtree \<Rightarrow> (string \<times> string list \<times> string list) list" where
  "walk root (FileT n) = []"
| "walk root (DirT n es) =
     (root, map tname (filter is_dirT es), map tname (filter (\<lambda>e. \<not> is_dirT e) es))
     # concat (map (\<lambda>e. walk (path_join root (tname e)) e) es)"

subsection \<open>The environment\<close>

text \<open>A \<^verbatim>\<open>subprocess.CompletedProcess\<close>.\<close>

record completed =
  args :: string
  returncode :: int
  stdout :: string
  stderr :: string

text \<open>
  The environment. \<open>exec\<close> is the operating system running a command line (with the
  time limit and the shell flag it was given): the outcome and the host afterwards.
  \<open>check_default\<close> is the default of the \<^verbatim>\<open>check\<close> argument of \<^verbatim>\<open>util.run\<close>. \<open>source\<close> is
  the configuration store: its answer to the \<open>n\<close>-th fetch. The functions imported
  from other modules are arbitrary actions on the world. \<open>rglob\<close> lists what
  \<^verbatim>\<open>Path.rglob("*")\<close> yields under a directory, \<open>subtree\<close> the tree \<^verbatim>\<open>os.walk\<close> sees at
  a path, both read off the layout of the host. \<open>add_cluster_info\<close> is the YAML edit of
  the logging agent's configuration, from the old text, the cluster name and the host
  name. The remaining fields are the directory tables \<^verbatim>\<open>util.dirs\<close> and
  \<^verbatim>\<open>util.slurmdirs\<close>.
\<close>

record env =
  exec :: "world \<Rightarrow> string \<Rightarrow> int option \<Rightarrow> bool \<Rightarrow> outcome \<times> host"
  check_default :: bool
  source :: "string option \<Rightarrow> nat \<Rightarrow> error + lookup"
  instance_metadata :: "string \<Rightarrow> string option act"
  install_custom_scripts :: "unit act"
  gen_controller_configs :: "unit act"
  setup_network_storage :: "unit act"
  setup_nfs_exports :: "unit act"
  sync_slurm :: "unit act"
  chown_slurm :: "string \<Rightarrow> nat option \<Rightarrow> unit act"
  mkdirp :: "string \<Rightarrow> unit act"
  get_log_path :: string
  rglob :: "(string \<rightharpoonup> nkind) \<Rightarrow> string \<Rightarrow> string list"
  subtree :: "(string \<rightharpoonup> nkind) \<Rightarrow> string \<Rightarrow> dtree option"
  add_cluster_info :: "string \<Rightarrow> string \<Rightarrow> string \<Rightarrow> error + string"
  scripts_dir :: string
  dirs_values :: "string list"
  dirs_slurm :: string
  dirs_scripts :: string
  dirs_custom_scripts :: string
  dirs_munge :: string
  dirs_log :: string
  slurmdirs_items :: "(string \<times> string) list"
  slurmdirs_prefix :: string
  slurmdirs_etc :: string
  slurmdirs_state :: string
  slurmdirs_home :: string

text \<open>
  Modelled from the spec: \<^verbatim>\<open>util.run\<close> is not among the sources. It is the wrapper of
  \<^verbatim>\<open>subprocess.run\<close> that every external command goes through: a blocking call with a
  time limit or none, that raises when the command cannot be started, when the limit
  passes, and, if \<open>check\<close> is set, when the command exits with a non-zero status.
\<close>

definition run :: "env \<Rightarrow> string \<Rightarrow> int option \<Rightarrow> bool \<Rightarrow> bool \<Rightarrow> completed act" where
  "run env cmd timeout check shell w =
     (case exec env w cmd timeout shell of (out, h) \<Rightarrow>
        (let w' = w\<lparr>host := h, trace := trace w @ [Ran cmd out]\<rparr> in
         case out of
           SpawnError e \<Rightarrow> (Inl (OSError e), w')
         | TimedOut \<Rightarrow> (Inl (TimeoutExpired cmd), w')
         | Exited rc sout serr \<Rightarrow>
             (if check \<and> rc \<noteq> 0 then (Inl (CalledProcessError cmd rc), w')
              else (Inr \<lparr>args = cmd, returncode = rc, stdout = sout, stderr = serr\<rparr>, w'))))"

text \<open>A command whose result the script does not look at.\<close>

definition run_cmd :: "env \<Rightarrow> string \<Rightarrow> int option \<Rightarrow> bool \<Rightarrow> bool \<Rightarrow> unit act" where
  "run_cmd env cmd timeout check shell = bindE (run env cmd timeout check shell) (\<lambda>_. returnE ())"

text \<open>\<^verbatim>\<open>result.check_returncode()\<close>.\<close>

definition check_returncode :: "completed \<Rightarrow> unit act" where
  "check_returncode r =
     (if returncode r \<noteq> 0 then raiseE (CalledProcessError (args r) (returncode r))
      else returnE ())"

subsection \<open>Status banner\<close>

definition MOTD_HEADER :: string where
  "MOTD_HEADER = text_of_lines ([''''] @ [
      ''                                 SSSSSSS'',
      ''                                SSSSSSSSS'',
      ''                                SSSSSSSSS'',
      ''                                SSSSSSSSS'',
      ''                        SSSS     SSSSSSS     SSSS'',
      ''                       SSSSSS               SSSSSS'',
      ''                       SSSSSS    SSSSSSS    SSSSSS'',
      ''                        SSSS    SSSSSSSSS    SSSS'',
      ''                SSS             SSSSSSSSS             SSS'',
      ''               SSSSS    SSSS    SSSSSSSSS    SSSS    SSSSS'',
      ''                SSS    SSSSSS   SSSSSSSSS   SSSSSS    SSS'',
      ''                       SSSSSS    SSSSSSS    SSSSSS'',
      ''                SSS    SSSSSS               SSSSSS    SSS'',
      ''               SSSSS    SSSS     SSSSSSS     SSSS    SSSSS'',
      ''          S     SSS             SSSSSSSSS             SSS     S'',
      ''         SSS            SSSS    SSSSSSSSS    SSSS            SSS'',
      ''          S     SSS    SSSSSS   SSSSSSSSS   SSSSSS    SSS     S'',
      ''               SSSSS   SSSSSS   SSSSSSSSS   SSSSSS   SSSSS'',
      ''          S    SSSSS    SSSS     SSSSSSS     SSSS    SSSSS    S'',
      ''    S    SSS    SSS                                   SSS    SSS    S'',
      ''    S     S                                                   S     S'',
      ''                SSS'',
      ''                SSS'',
      ''                SSS'',
      ''                SSS'',
      '' SSSSSSSSSSSS   SSS   SSSS       SSSS    SSSSSSSSS   SSSSSSSSSSSSSSSSSSSS'',
      ''SSSSSSSSSSSSS   SSS   SSSS       SSSS   SSSSSSSSSS  SSSSSSSSSSSSSSSSSSSSSS'',
      ''SSSS            SSS   SSSS       SSSS   SSSS        SSSS     SSSS     SSSS'',
      ''SSSS            SSS   SSSS       SSSS   SSSS        SSSS     SSSS     SSSS'',
      ''SSSSSSSSSSSS    SSS   SSSS       SSSS   SSSS        SSSS     SSSS     SSSS'',
      '' SSSSSSSSSSSS   SSS   SSSS       SSSS   SSSS        SSSS     SSSS     SSSS'',
      ''         SSSS   SSS   SSSS       SSSS   SSSS        SSSS     SSSS     SSSS'',
      ''         SSSS   SSS   SSSS       SSSS   SSSS        SSSS     SSSS     SSSS'',
      ''SSSSSSSSSSSSS   SSS   SSSSSSSSSSSSSSS   SSSS        SSSS     SSSS     SSSS'',
      ''SSSSSSSSSSSS    SSS    SSSSSSSSSSSSS    SSSS        SSSS     SSSS     SSSS''
      ] @ [''''])"

definition MAINTENANCE_SBATCH_SCRIPT_PATH :: "env \<Rightarrow> string" where
  "MAINTENANCE_SBATCH_SCRIPT_PATH env = path_join (dirs_custom_scripts env) ''perform_maintenance.sh''"

definition start_motd :: "env \<Rightarrow> unit act" where
  "start_motd env =
     (let wall_msg = ''*** Slurm is currently being configured in the background. ***'';
          motd_msg = MOTD_HEADER @ wall_msg @ [nl, nl]
      in seqE [
        write_text ''/etc/motd'' motd_msg,
        run_cmd env (''wall -n '' @ [sq] @ wall_msg @ [sq]) (Some 30) (check_default env) False])"

definition end_motd :: "env \<Rightarrow> bool \<Rightarrow> unit act" where
  "end_motd env broadcast =
     seqE [
       write_text ''/etc/motd'' MOTD_HEADER,
       whenE broadcast (seqE [
         (\<lambda>w. run_cmd env
            (''wall -n '' @ [sq] @ ''*** Slurm '' @ instance_role (lkp w) @ '' setup complete ***'' @ [sq])
            (Some 30) (check_default env) False w),
         (\<lambda>w. whenE (\<not> is_controller (lkp w))
            (run_cmd env
               (''wall -n '' @ [sq] @ text_of_lines [
                  '''',
                  ''/home on the controller was mounted over the existing /home.'',
                  ''Log back in to ensure your home directory is correct.''] @ [sq])
               (Some 30) (check_default env) False) w)])]"

definition failed_motd :: "env \<Rightarrow> unit act" where
  "failed_motd env w =
     (if is_hybrid_setup (lkp w) then (Inr (), w)
      else
        (let wall_msg = ''*** Slurm setup failed! Please view log: '' @ get_log_path env @ '' ***'';
             motd_msg = MOTD_HEADER @ wall_msg @ [nl, nl]
         in seqE [
           write_text ''/etc/motd'' motd_msg,
           run_cmd env (''wall -n '' @ [sq] @ wall_msg @ [sq]) (Some 30) (check_default env) False] w))"

subsection \<open>Custom scripts\<close>

definition custom_dirs :: "env \<Rightarrow> world \<Rightarrow> string list" where
  "custom_dirs env w =
     (let custom_dir = dirs_custom_scripts env in
      if is_controller (lkp w) then [path_join custom_dir ''controller.d'']
      else if instance_role (lkp w) = ''compute'' then
        [path_join custom_dir ''compute.d'', path_join custom_dir ''nodeset.d'']
      else if is_login_node (lkp w) then [path_join custom_dir ''login.d'']
      else [])"

definition custom_scripts :: "env \<Rightarrow> world \<Rightarrow> string list" where
  "custom_scripts env w =
     concat (map (\<lambda>d. filter (\<lambda>p. is_file w p \<and> \<not> endswith (basename p) ''.disabled'') (rglob env (layout (host w)) d))
       (custom_dirs env w))"

text \<open>\<^verbatim>\<open>str(p.relative_to(base))\<close>, which raises for a path outside \<open>base\<close>.\<close>

definition relative_to :: "string \<Rightarrow> string \<Rightarrow> error + string" where
  "relative_to p base =
     (if p = base then Inr ''.''
      else if startswith p (base @ ''/'') then Inr (drop (length base + 1) p)
      else Inl (Exception ''ValueError''))"

fun relative_names :: "string \<Rightarrow> string list \<Rightarrow> error + string list" where
  "relative_names base [] = Inr []"
| "relative_names base (s # ss) =
     (case relative_to s base of
        Inl e \<Rightarrow> Inl e
      | Inr r \<Rightarrow> (case relative_names base ss of Inl e \<Rightarrow> Inl e | Inr rs \<Rightarrow> Inr (r # rs)))"

text \<open>\<^verbatim>\<open>cfg.get(key, default)\<close>.\<close>

definition cfg_get :: "config \<Rightarrow> string \<Rightarrow> int \<Rightarrow> int option" where
  "cfg_get c key dflt = (case cfg_items c key of None \<Rightarrow> Some dflt | Some v \<Rightarrow> v)"

text \<open>
  The time limit of one script (the head of the loop body in \<^verbatim>\<open>run_custom_scripts\<close>);
  \<open>None\<close> is Python's \<^verbatim>\<open>None\<close>, no limit.
\<close>

definition script_timeout :: "config \<Rightarrow> string \<Rightarrow> int option" where
  "script_timeout c script =
     (let timeout =
        (if str_in ''/controller.d/'' script then
           cfg_get c ''controller_startup_scripts_timeout'' 300
         else if str_in ''/compute.d/'' script \<or> str_in ''/nodeset.d/'' script then
           cfg_get c ''compute_startup_scripts_timeout'' 300
         else if str_in ''/login.d/'' script then
           cfg_get c ''login_startup_scripts_timeout'' 300
         else Some 300)
      in case timeout of
           None \<Rightarrow> None
         | Some t \<Rightarrow> (if t = 0 \<or> t < 0 then None else Some t))"

text \<open>The body of the \<^verbatim>\<open>try\<close> for one script, after its time limit is known.\<close>

definition run_script :: "env \<Rightarrow> string \<Rightarrow> int option \<Rightarrow> unit act" where
  "run_script env script timeout =
     seqE [
       log_at INFO (''running script '' @ basename script @ '' with timeout='' @ str_timeout timeout),
       bindE (run env script timeout False True) (\<lambda>result.
         seqE [
           log_at INFO (basename script @ '' returncode='' @ str_int (returncode result) @ [nl]
             @ ''stdout='' @ stdout result @ ''stderr='' @ stderr result),
           check_returncode result])]"

text \<open>The three \<^verbatim>\<open>except\<close> clauses: each logs and raises the exception again.\<close>

definition script_failed :: "string \<Rightarrow> int option \<Rightarrow> error \<Rightarrow> unit act" where
  "script_failed script timeout e =
     (case e of
        OSError _ \<Rightarrow>
          thenE (log_at ERROR (''script '' @ script @ '' is not executable'')) (raiseE e)
      | TimeoutExpired _ \<Rightarrow>
          thenE (log_at ERROR (''script '' @ script @ '' did not complete within timeout=''
            @ str_timeout timeout)) (raiseE e)
      | _ \<Rightarrow>
          thenE (log_at ERROR (''script '' @ script @ '' encountered an exception'')) (raiseE e))"

text \<open>The \<^verbatim>\<open>for\<close> loop over the scripts inside the \<^verbatim>\<open>try\<close>.\<close>

fun run_scripts :: "env \<Rightarrow> string list \<Rightarrow> unit act" where
  "run_scripts env [] w = (Inr (), w)"
| "run_scripts env (script # rest) w =
     (let timeout = script_timeout (cfg (lkp w)) script in
      case run_script env script timeout w of
        (Inl e, w') \<Rightarrow> script_failed script timeout e w'
      | (Inr _, w') \<Rightarrow> run_scripts env rest w')"

definition run_custom_scripts :: "env \<Rightarrow> unit act" where
  "run_custom_scripts env w =
     (let custom_dir = dirs_custom_scripts env;
          scripts = custom_scripts env w
      in case relative_names custom_dir scripts of
           Inl e \<Rightarrow> (Inl e, w)
         | Inr names \<Rightarrow>
             seqE [
               log_at DEBUG (''custom scripts to run: '' @ custom_dir @ ''/(''
                 @ join_with '','' names @ '')''),
               run_scripts env scripts] w)"

subsection \<open>Mount table\<close>

definition mount_save_state_disk :: "env \<Rightarrow> unit act" where
  "mount_save_state_disk env w =
     (let disk_name = ''/dev/disk/by-id/google-''
            @ str_opt (controller_state_disk_device_name (cfg (lkp w)));
          mount_point = slurmdirs_state env;
          fs_type = ''ext4''
      in bindE (run env (''realpath '' @ disk_name) None (check_default env) False) (\<lambda>r1.
           let rdevice = strip (stdout r1) in
           bindE (run env (''file -s '' @ rdevice) None (check_default env) False) (\<lambda>r2.
             let file_output = strip (stdout r2);
                 fstab_entry = disk_name @ '' '' @ mount_point @ '' '' @ fs_type
             in seqE [
               whenE (\<not> str_in ''filesystem'' file_output)
                 (run_cmd env (''mkfs -t '' @ fs_type @ '' -q '' @ rdevice) None (check_default env) False),
               bindE (read_text ''/etc/fstab'') (\<lambda>txt.
                 let fstab = readlines txt in
                 whenE (fstab_entry \<notin> set fstab)
                   (append_text ''/etc/fstab'' (fstab_entry @ '' defaults 0 0'' @ [nl]))),
               run_cmd env ''systemctl daemon-reload'' None (check_default env) False,
               makedirs mount_point,
               run_cmd env (''mount '' @ mount_point) None (check_default env) False,
               chown_slurm env mount_point None])) w)"

definition mount_munge_key_disk :: "env \<Rightarrow> unit act" where
  "mount_munge_key_disk env =
     (let state_disk_dir = ''/var/spool/slurm/munge'';
          mount_point = dirs_munge env;
          fstab_entry = state_disk_dir @ '' '' @ mount_point
      in seqE [
        makedirs state_disk_dir,
        run_cmd env (''mount --bind '' @ state_disk_dir @ '' '' @ mount_point) None (check_default env) False,
        bindE (read_text ''/etc/fstab'') (\<lambda>txt.
          let fstab = readlines txt in
          whenE (fstab_entry \<notin> set fstab)
            (append_text ''/etc/fstab'' (fstab_entry @ '' none bind 0 0'' @ [nl]))),
        run_cmd env ''systemctl daemon-reload'' None (check_default env) False])"

subsection \<open>Keys, name service, sudoers, maintenance script\<close>

text \<open>File modes are written in decimal: 256 is 0o400, 288 is 0o440, 384 is 0o600, 493 is 0o755.\<close>

definition setup_jwt_key :: "env \<Rightarrow> unit act" where
  "setup_jwt_key env =
     (let jwt_key = path_join (slurmdirs_state env) ''jwt_hs256.key'' in
      seqE [
        (\<lambda>w. if path_exists w jwt_key then
                log_at INFO ''JWT key already exists. Skipping key generation.'' w
              else run_cmd env (''dd if=/dev/urandom bs=32 count=1 > '' @ jwt_key)
                     None (check_default env) True w),
        chown_slurm env jwt_key (Some 256)])"

definition setup_munge_key :: "env \<Rightarrow> unit act" where
  "setup_munge_key env =
     (let munge_key = path_join (dirs_munge env) ''munge.key'' in
      seqE [
        (\<lambda>w. if path_exists w munge_key then
                log_at INFO ''Munge key already exists. Skipping key generation.'' w
              else run_cmd env (''dd if=/dev/random of='' @ munge_key @ '' bs=1024 count=1'')
                     None (check_default env) False w),
        shutil_chown munge_key ''munge'' ''munge'',
        chmod munge_key 256,
        run_cmd env ''systemctl restart munge'' (Some 30) (check_default env) False])"

definition setup_nss_slurm :: "env \<Rightarrow> unit act" where
  "setup_nss_slurm env =
     seqE [
       mkdirp env ''/var/spool/slurmd'',
       run_cmd env (''ln -s '' @ slurmdirs_prefix env
           @ ''/lib/libnss_slurm.so.2 /usr/lib64/libnss_slurm.so.2'') None False False,
       run_cmd env (''sed -i '' @ [sq] @ ''s/'' @ [bs] @ ''(^'' @ [bs] @ ''(passwd'' @ [bs]
           @ ''|group'' @ [bs] @ ''):'' @ [bs] @ ''s'' @ [bs] @ ''+'' @ [bs] @ '')/'' @ [bs]
           @ ''1slurm /g'' @ [sq] @ '' /etc/nsswitch.conf'') None (check_default env) False]"

definition setup_sudoers :: "unit act" where
  "setup_sudoers =
     (let content = text_of_lines [
            '''',
            ''# Allow SlurmUser to manage the slurm daemons'',
            ''slurm ALL= NOPASSWD: /usr/bin/systemctl restart slurmd.service'',
            ''slurm ALL= NOPASSWD: /usr/bin/systemctl restart sackd.service'',
            ''slurm ALL= NOPASSWD: /usr/bin/systemctl restart slurmctld.service''];
          sudoers_file = ''/etc/sudoers.d/slurm''
      in seqE [write_text sudoers_file content, chmod sudoers_file 288])"

definition setup_maintenance_script :: "env \<Rightarrow> unit act" where
  \<open>setup_maintenance_script env =
     (let perform_maintenance = text_of_lines [
            ''#!/bin/bash'',
            '''',
            ''#SBATCH --priority=low'',
            ''#SBATCH --time=180'',
            '''',
            ''VM_NAME=$(curl -s "http://metadata.google.internal/computeMetadata/v1/instance/name" -H "Metadata-Flavor: Google")'',
            ''ZONE=$(curl -s "http://metadata.google.internal/computeMetadata/v1/instance/zone" -H "Metadata-Flavor: Google" | cut -d '' @ [sq] @ ''/'' @ [sq] @ '' -f 4)'',
            '''',
            ''gcloud compute instances perform-maintenance $VM_NAME   --zone=$ZONE'']
      in seqE [
        write_text (MAINTENANCE_SBATCH_SCRIPT_PATH env) perform_maintenance,
        chown_slurm env (MAINTENANCE_SBATCH_SCRIPT_PATH env) (Some 493)])\<close>

subsection \<open>Service defaults and database\<close>

definition update_system_config :: "string \<Rightarrow> string \<Rightarrow> unit act" where
  "update_system_config file content w =
     (let sysconfig = ''/etc/sysconfig'';
          dflt = ''/etc/default''
      in if path_exists w sysconfig then write_text (path_join sysconfig file) content w
         else if path_exists w dflt then write_text (path_join dflt file) content w
         else (Inl (Exception ''Cannot determine system configuration directory.''), w))"

definition configure_mysql :: "env \<Rightarrow> unit act" where
  \<open>configure_mysql env =
     (let mysql = ''mysql -u root -e'' in
      seqE [
        (\<lambda>w.
           let cnfdir = (if \<not> path_exists w ''/etc/my.cnf.d'' then ''/etc/mysql/conf.d''
                         else ''/etc/my.cnf.d'')
           in whenE (\<not> path_exists w (path_join cnfdir ''mysql_slurm.cnf''))
                (write_text (path_join cnfdir ''mysql_slurm.cnf'') (text_of_lines [
                   '''',
                   ''[mysqld]'',
                   ''bind-address=127.0.0.1'',
                   ''innodb_buffer_pool_size=1024M'',
                   ''innodb_log_file_size=64M'',
                   ''innodb_lock_wait_timeout=900''])) w),
        run_cmd env ''systemctl enable mariadb'' (Some 30) (check_default env) False,
        run_cmd env ''systemctl restart mariadb'' (Some 30) (check_default env) False,
        run_cmd env (mysql @ '' "drop user '' @ [sq] @ ''slurm'' @ [sq] @ ''@'' @ [sq]
          @ ''localhost'' @ [sq] @ ''";'') (Some 30) False False,
        run_cmd env (mysql @ '' "create user '' @ [sq] @ ''slurm'' @ [sq] @ ''@'' @ [sq]
          @ ''localhost'' @ [sq] @ ''";'') (Some 30) (check_default env) False,
        run_cmd env (mysql @ '' "grant all on slurm_acct_db.* TO '' @ [sq] @ ''slurm'' @ [sq]
          @ ''@'' @ [sq] @ ''localhost'' @ [sq] @ ''";'') (Some 30) (check_default env) False,
        (\<lambda>w. run_cmd env (mysql @ '' "drop user '' @ [sq] @ ''slurm'' @ [sq] @ ''@'' @ [sq]
          @ control_host (lkp w) @ [sq] @ ''";'') (Some 30) False False w),
        (\<lambda>w. run_cmd env (mysql @ '' "create user '' @ [sq] @ ''slurm'' @ [sq] @ ''@'' @ [sq]
          @ control_host (lkp w) @ [sq] @ ''";'') (Some 30) (check_default env) False w),
        (\<lambda>w. run_cmd env (mysql @ '' "grant all on slurm_acct_db.* TO '' @ [sq] @ ''slurm''
          @ [sq] @ ''@'' @ [sq] @ control_host (lkp w) @ [sq] @ ''";'')
          (Some 30) (check_default env) False w)])\<close>

subsection \<open>Directories and links\<close>

text \<open>One round of the loop that creates the symbolic links in \<^verbatim>\<open>configure_dirs\<close>.\<close>

definition reconcile_symlink :: "string \<Rightarrow> string \<Rightarrow> unit act" where
  "reconcile_symlink sl tgt =
     seqE [
       (\<lambda>w. whenE (path_exists w sl \<and> is_symlink w sl) (unlink sl) w),
       symlink_to sl tgt]"

definition configure_dirs :: "env \<Rightarrow> unit act" where
  "configure_dirs env =
     seqE [
       seqE (map (mkdirp env) (dirs_values env)),
       seqE (map (\<lambda>p. chown_slurm env p None)
         [dirs_slurm env, dirs_scripts env, dirs_custom_scripts env]),
       seqE (map (\<lambda>(name, path).
           seqE [mkdirp env path, whenE (name \<noteq> ''prefix'') (chown_slurm env path None)])
         (slurmdirs_items env)),
       seqE (map (\<lambda>(sl, tgt). reconcile_symlink sl tgt) [
         (''/etc/slurm'', slurmdirs_etc env),
         (path_join (dirs_scripts env) ''etc'', slurmdirs_etc env),
         (path_join (dirs_scripts env) ''log'', dirs_log env)]),
       seqE (map (\<lambda>f.
           let dst = path_join (path_join (slurmdirs_prefix env) ''bin'') f in
           seqE [copyfile (path_join (scripts_dir env) f) dst, chmod dst 493])
         [''sort_nodes.py''])]"

subsection \<open>Controller and login\<close>

text \<open>
  The registration of the cluster with the accounting database, in
  \<^verbatim>\<open>setup_controller\<close>: the command runs without \<open>check\<close>, and its result is judged here.
\<close>

definition register_cluster :: "env \<Rightarrow> unit act" where
  "register_cluster env w =
     (let sacctmgr = slurmdirs_prefix env @ ''/bin/sacctmgr -i'' in
      bindE (run env (sacctmgr @ '' add cluster '' @ slurm_cluster_name (cfg (lkp w)))
               (Some 30) False False) (\<lambda>result.
        if str_in ''already exists'' (stdout result) then log_at INFO (stdout result)
        else if returncode result > 1 then check_returncode result
        else returnE ()) w)"

definition setup_controller :: "env \<Rightarrow> unit act" where
  "setup_controller env =
     seqE [
       log_at INFO ''Setting up controller'',
       chown_slurm env (path_join (dirs_scripts env) ''config.yaml'') (Some 384),
       install_custom_scripts env,
       gen_controller_configs env,
       (\<lambda>w. whenE (controller_state_disk_device_name (cfg (lkp w)) \<noteq> None)
          (seqE [mount_save_state_disk env, mount_munge_key_disk env]) w),
       setup_jwt_key env,
       setup_munge_key env,
       setup_sudoers,
       setup_network_storage env,
       run_custom_scripts env,
       (\<lambda>w. whenE (\<not> cloudsql_secret (cfg (lkp w))) (configure_mysql env) w),
       run_cmd env ''systemctl enable slurmdbd'' (Some 30) (check_default env) False,
       run_cmd env ''systemctl restart slurmdbd'' (Some 30) (check_default env) False,
       sleep 5,
       register_cluster env,
       run_cmd env ''systemctl enable slurmctld'' (Some 30) (check_default env) False,
       run_cmd env ''systemctl restart slurmctld'' (Some 30) (check_default env) False,
       run_cmd env ''systemctl enable slurmrestd'' (Some 30) (check_default env) False,
       run_cmd env ''systemctl restart slurmrestd'' (Some 30) (check_default env) False,
       run_cmd env ''systemctl enable nfs-server'' (Some 30) (check_default env) False,
       run_cmd env ''systemctl start nfs-server'' (Some 30) (check_default env) False,
       setup_nfs_exports env,
       run_cmd env ''systemctl enable --now slurmcmd.timer'' (Some 30) (check_default env) False,
       log_at INFO ''Check status of cluster services'',
       run_cmd env ''systemctl status munge'' (Some 30) (check_default env) False,
       run_cmd env ''systemctl status slurmdbd'' (Some 30) (check_default env) False,
       run_cmd env ''systemctl status slurmctld'' (Some 30) (check_default env) False,
       run_cmd env ''systemctl status slurmrestd'' (Some 30) (check_default env) False,
       sync_slurm env,
       run_cmd env ''systemctl enable slurm_load_bq.timer'' (Some 30) (check_default env) False,
       run_cmd env ''systemctl start slurm_load_bq.timer'' (Some 30) (check_default env) False,
       run_cmd env ''systemctl status slurm_load_bq.timer'' (Some 30) (check_default env) False,
       setup_maintenance_script env,
       log_at INFO ''Done setting up controller'']"

text \<open>
  The host the daemons contact: \<^verbatim>\<open>control_host\<close>, with \<^verbatim>\<open>control_addr\<close> in brackets
  when that is set and not empty.
\<close>

definition slurmctld_host :: "lookup \<Rightarrow> string" where
  "slurmctld_host l =
     (case control_addr l of
        None \<Rightarrow> control_host l
      | Some a \<Rightarrow> (if a = [] then control_host l else control_host l @ ''('' @ a @ '')''))"

definition setup_login :: "env \<Rightarrow> unit act" where
  "setup_login env =
     seqE [
       log_at INFO ''Setting up login'',
       (\<lambda>w.
          let sackd_options = [''--conf-server='' @ [dq] @ slurmctld_host (lkp w) @ '':''
                @ control_host_port (lkp w) @ [dq]];
              sysconf = ''SACKD_OPTIONS='' @ [sq] @ join_with '' '' sackd_options @ [sq]
          in update_system_config ''sackd'' sysconf w),
       install_custom_scripts env,
       setup_network_storage env,
       setup_sudoers,
       run_cmd env ''systemctl restart munge'' None (check_default env) False,
       run_cmd env ''systemctl enable sackd'' (Some 30) (check_default env) False,
       run_cmd env ''systemctl restart sackd'' (Some 30) (check_default env) False,
       run_cmd env ''systemctl enable --now slurmcmd.timer'' (Some 30) (check_default env) False,
       run_custom_scripts env,
       log_at INFO ''Check status of cluster services'',
       run_cmd env ''systemctl status munge'' (Some 30) (check_default env) False,
       run_cmd env ''systemctl status sackd'' (Some 30) (check_default env) False,
       log_at INFO ''Done setting up login'']"

subsection \<open>Ownership\<close>

definition my_chown :: "string \<Rightarrow> int \<Rightarrow> int \<Rightarrow> int \<Rightarrow> int \<Rightarrow> unit act" where
  "my_chown path uid gid previous_uid previous_gid =
     bindE (stat path) (\<lambda>st.
       let my_uid = (if previous_uid = - 1 \<or> st_uid st = previous_uid then uid else - 1);
           my_gid = (if previous_gid = - 1 \<or> st_gid st = previous_gid then gid else - 1)
       in whenE (my_uid \<noteq> - 1 \<or> my_gid \<noteq> - 1) (os_chown path my_uid my_gid))"

definition os_walk :: "env \<Rightarrow> world \<Rightarrow> string \<Rightarrow> (string \<times> string list \<times> string list) list" where
  "os_walk env w path = (case subtree env (layout (host w)) path of None \<Rightarrow> [] | Some t \<Rightarrow> walk path t)"

definition recursive_chown :: "env \<Rightarrow> string \<Rightarrow> int \<Rightarrow> int \<Rightarrow> int \<Rightarrow> int \<Rightarrow> unit act" where
  "recursive_chown env path uid gid previous_uid previous_gid =
     seqE [
       my_chown path uid gid previous_uid previous_gid,
       (\<lambda>w. seqE (map (\<lambda>(root, dirs, files).
           seqE [
             seqE (map (\<lambda>directory.
               my_chown (path_join root directory) uid gid previous_uid previous_gid) dirs),
             seqE (map (\<lambda>file.
               my_chown (path_join root file) uid gid previous_uid previous_gid) files)])
         (os_walk env w path)) w)]"

text \<open>The four remaps at the end of \<^verbatim>\<open>change_uid_gid_slurm\<close>.\<close>

definition remap_slurm_dirs :: "env \<Rightarrow> int \<Rightarrow> int \<Rightarrow> int \<Rightarrow> int \<Rightarrow> unit act" where
  "remap_slurm_dirs env uid gid cur_uid cur_gid =
     seqE [
       recursive_chown env (slurmdirs_home env) uid gid (- 1) (- 1),
       recursive_chown env (slurmdirs_etc env) uid gid cur_uid cur_gid,
       (\<lambda>w. recursive_chown env (slurm_log_dir (cfg (lkp w))) uid gid cur_uid cur_gid w),
       recursive_chown env (dirs_slurm env) uid gid cur_uid cur_gid]"

text \<open>
  The second half of \<^verbatim>\<open>change_uid_gid_slurm\<close>, from the lookup of the current uid on;
  \<open>need_chown\<close> is the flag as the first half left it.
\<close>

definition change_uid_slurm :: "env \<Rightarrow> bool \<Rightarrow> int \<Rightarrow> int \<Rightarrow> unit act" where
  "change_uid_slurm env need_chown cur_gid gid =
     bindE (getpwnam ''slurm'') (\<lambda>cur_uid w.
       let uid = slurm_uid (hybrid_conf (cfg (lkp w))) in
       if cur_uid \<noteq> uid then
         (let need_chown = True in
          bindE (run env (''usermod -u '' @ str_int uid @ '' slurm'') None (check_default env) False)
            (\<lambda>urc.
               if returncode urc \<noteq> 0 then
                 log_at ERROR (''Cannot change the uid of slurm rc='' @ str_int (returncode urc)
                   @ '' stdout='' @ stdout urc @ '' stderr='' @ stderr urc)
               else whenE need_chown (remap_slurm_dirs env uid gid cur_uid cur_gid)) w)
       else whenE need_chown (remap_slurm_dirs env uid gid cur_uid cur_gid) w)"

definition change_uid_gid_slurm :: "env \<Rightarrow> unit act" where
  "change_uid_gid_slurm env =
     (let need_chown = False in
      bindE (getgrnam ''slurm'') (\<lambda>cur_gid w.
        let gid = slurm_gid (hybrid_conf (cfg (lkp w))) in
        if cur_gid \<noteq> gid then
          (let need_chown = True in
           bindE (run env (''groupmod -g '' @ str_int gid @ '' slurm'') None (check_default env) False)
             (\<lambda>grc.
                if returncode grc \<noteq> 0 then
                  log_at ERROR (''Cannot change the gid of slurm rc='' @ str_int (returncode grc)
                    @ '' stdout='' @ stdout grc @ '' stderr='' @ stderr grc)
                else change_uid_slurm env need_chown cur_gid gid) w)
        else change_uid_slurm env need_chown cur_gid gid w))"

subsection \<open>Compute\<close>

text \<open>
  The part of \<^verbatim>\<open>setup_compute\<close> that builds the options of \<^verbatim>\<open>slurmd\<close> and writes them
  to the service's defaults file. \<open>instance_metadata\<close> of the environment is
  \<^verbatim>\<open>util.instance_metadata\<close>; the \<^verbatim>\<open>try\<close> around it turns every exception into \<^verbatim>\<open>None\<close>.
\<close>

definition fetch_slurmd_feature :: "env \<Rightarrow> string option act" where
  "fetch_slurmd_feature env w =
     (case instance_metadata env ''attributes/slurmd_feature'' w of
        (Inl e, w') \<Rightarrow> (Inr None, w')
      | (Inr v, w') \<Rightarrow> (Inr v, w'))"

definition slurmd_options :: "lookup \<Rightarrow> string option \<Rightarrow> string list" where
  "slurmd_options l slurmd_feature =
     [''--conf-server='' @ [dq] @ slurmctld_host l @ '':'' @ control_host_port l @ [dq]]
     @ (case slurmd_feature of
          None \<Rightarrow> []
        | Some f \<Rightarrow> [''--conf='' @ [dq] @ ''Feature='' @ f @ [dq], ''-Z''])"

definition setup_slurmd_options :: "env \<Rightarrow> unit act" where
  "setup_slurmd_options env =
     bindE (fetch_slurmd_feature env) (\<lambda>slurmd_feature w.
       let sysconf = ''SLURMD_OPTIONS='' @ [sq]
             @ join_with '' '' (slurmd_options (lkp w) slurmd_feature) @ [sq]
       in update_system_config ''slurmd'' sysconf w)"

definition setup_compute :: "env \<Rightarrow> unit act" where
  "setup_compute env =
     seqE [
       log_at INFO ''Setting up compute'',
       (\<lambda>w. whenE (hybrid (cfg (lkp w))) (change_uid_gid_slurm env) w),
       chown_slurm env (path_join (dirs_scripts env) ''config.yaml'') (Some 384),
       setup_slurmd_options env,
       install_custom_scripts env,
       setup_nss_slurm env,
       setup_network_storage env,
       bindE (run env (''lspci | grep --ignore-case '' @ [sq] @ ''NVIDIA'' @ [sq] @ '' | wc -l'')
                None (check_default env) True) (\<lambda>r.
         let has_gpu = returncode r in
         whenE (has_gpu \<noteq> 0) (run_cmd env ''nvidia-smi'' None (check_default env) False)),
       run_custom_scripts env,
       setup_sudoers,
       run_cmd env ''systemctl restart munge'' (Some 30) (check_default env) False,
       run_cmd env ''systemctl enable slurmd'' (Some 30) (check_default env) False,
       run_cmd env ''systemctl restart slurmd'' (Some 30) (check_default env) False,
       run_cmd env ''systemctl enable --now slurmcmd.timer'' (Some 30) (check_default env) False,
       log_at INFO ''Check status of cluster services'',
       run_cmd env ''systemctl status munge'' (Some 30) (check_default env) False,
       run_cmd env ''systemctl status slurmd'' (Some 30) (check_default env) False,
       log_at INFO ''Done setting up compute'']"

subsection \<open>Logging agent\<close>

definition setup_cloud_ops :: "env \<Rightarrow> unit act" where
  "setup_cloud_ops env =
     bindE (run env ''systemctl is-active --quiet google-cloud-ops-agent.service'' None False False)
       (\<lambda>r.
          let cloudOpsStatus = returncode r in
          if cloudOpsStatus \<noteq> 0 then returnE ()
          else seqE [
            bindE (read_text ''/etc/google-cloud-ops-agent/config.yaml'') (\<lambda>txt w.
              case add_cluster_info env txt (slurm_cluster_name (cfg (lkp w))) (hostname (lkp w)) of
                Inl e \<Rightarrow> (Inl e, w)
              | Inr out \<Rightarrow> write_text ''/etc/google-cloud-ops-agent/config.yaml'' out w),
            run_cmd env ''systemctl restart google-cloud-ops-agent.service''
              (Some 30) (check_default env) False])"

subsection \<open>Configuration\<close>

text \<open>
  Modelled from the spec: \<^verbatim>\<open>util.fetch_config\<close> is not among the sources. It fetches
  the raw configuration from the store and either returns it or raises; here it gives
  the answer of the store to this fetch, and every call counts.
\<close>

definition fetch_config :: "env \<Rightarrow> string option \<Rightarrow> lookup act" where
  "fetch_config env bucket w =
     (source env bucket (fetches w),
      w\<lparr>fetches := Suc (fetches w), trace := trace w @ [Fetched]\<rparr>)"

text \<open>
  Modelled from the spec: \<^verbatim>\<open>util.update_config\<close> is not among the sources. It installs
  the fetched configuration as the active one, the one \<^verbatim>\<open>lookup()\<close> answers from.
\<close>

definition update_config :: "lookup \<Rightarrow> unit act" where
  "update_config c w = (Inr (), w\<lparr>lkp := c\<rparr>)"

text \<open>The body of the \<^verbatim>\<open>try\<close> in \<^verbatim>\<open>get_config\<close>, up to the \<^verbatim>\<open>break\<close>.\<close>

definition get_config_try :: "env \<Rightarrow> string option \<Rightarrow> unit act" where
  "get_config_try env bucket =
     bindE (fetch_config env bucket) (\<lambda>c.
       seqE [
         update_config c,
         whenE (bucket \<noteq> None) (\<lambda>w. (Inr (), w\<lparr>lkp := (lkp w)\<lparr>hybrid_setup := True\<rparr>\<rparr>))])"

text \<open>The two \<^verbatim>\<open>except\<close> clauses; \<^verbatim>\<open>log.exception\<close> logs at the level of an error.\<close>

definition get_config_except :: "error \<Rightarrow> unit act" where
  "get_config_except e =
     (case e of
        DeffetiveStoredConfigError m \<Rightarrow>
          log_at WARNING (''config is not ready yet: '' @ m @ '', sleeping for 5s'')
      | _ \<Rightarrow> log_at ERROR ''unexpected error while fetching config, sleeping for 5s'')"

text \<open>
  The \<^verbatim>\<open>while True\<close> loop. It has no bound, so the model is a partial function: \<open>None\<close>
  is a loop that never leaves.
\<close>

partial_function (option) get_config_loop :: "env \<Rightarrow> string option \<Rightarrow> world \<Rightarrow> world option" where
  "get_config_loop env bucket w =
     (case get_config_try env bucket w of
        (Inr u, w') \<Rightarrow> Some w'
      | (Inl e, w') \<Rightarrow> get_config_loop env bucket (snd (sleep 5 (snd (get_config_except e w')))))"

type_synonym 'a pact = "world \<Rightarrow> 'a res option"

definition get_config :: "env \<Rightarrow> string option \<Rightarrow> unit pact" where
  "get_config env bucket w =
     (case get_config_loop env bucket w of
        None \<Rightarrow> None
      | Some w' \<Rightarrow> Some (log_at INFO ''Config fetched'' w'))"

subsection \<open>Entry points\<close>

definition liftP :: "'a act \<Rightarrow> 'a pact" where
  "liftP m w = Some (m w)"

fun seqP :: "unit pact list \<Rightarrow> unit pact" where
  "seqP [] w = Some (Inr (), w)"
| "seqP (a # as) w =
     (case a w of
        None \<Rightarrow> None
      | Some (Inl e, w') \<Rightarrow> Some (Inl e, w')
      | Some (Inr _, w') \<Rightarrow> seqP as w')"

definition setup_hybrid :: "env \<Rightarrow> string option \<Rightarrow> unit pact" where
  "setup_hybrid env bucket =
     seqP [
       liftP (log_at INFO ''Starting hybrid setup, fetching config''),
       get_config env bucket,
       liftP (log_at INFO ''Generating the config files''),
       liftP (gen_controller_configs env),
       liftP (log_at INFO ''Success'')]"

text \<open>
  The call through the table of roles in \<^verbatim>\<open>main\<close>: the function of the role, or for a
  role the table does not have, the function that logs at the fatal level.
\<close>

definition setup_role :: "env \<Rightarrow> unit act" where
  "setup_role env w =
     (let role = instance_role (lkp w) in
      if role = ''controller'' then setup_controller env w
      else if role = ''compute'' then setup_compute env w
      else if role = ''login'' then setup_login env w
      else log_at FATAL (''Unknown node role: '' @ instance_role (lkp w)) w)"

definition main :: "env \<Rightarrow> unit pact" where
  "main env =
     seqP [
       liftP (start_motd env),
       liftP (log_at INFO ''Starting setup, fetching config''),
       get_config env None,
       liftP (setup_cloud_ops env),
       liftP (configure_dirs env),
       liftP (setup_role env),
       liftP (end_motd env True)]"

subsection \<open>A sample host\<close>

text \<open>
  A small host, a configuration and an environment in which every command exits with
  status 0 and every imported function does nothing, for running the functions above
  on concrete inputs.
\<close>

definition sample_config :: config where
  "sample_config =
     \<lparr>cfg_items = [''controller_startup_scripts_timeout'' \<mapsto> Some 600,
                   ''compute_startup_scripts_timeout'' \<mapsto> Some 0],
      controller_state_disk_device_name = Some ''state'',
      cloudsql_secret = False,
      slurm_cluster_name = ''hpc'',
      hybrid = True,
      hybrid_conf = \<lparr>slurm_uid = 99, slurm_gid = 98\<rparr>,
      slurm_log_dir = ''/var/log/slurm''\<rparr>"

definition sample_lookup :: "string \<Rightarrow> lookup" where
  "sample_lookup role =
     \<lparr>cfg = sample_config,
      instance_role = role,
      is_controller = (role = ''controller''),
      is_login_node = (role = ''login''),
      is_hybrid_setup = False,
      hybrid_setup = False,
      control_host = ''ctl'',
      control_addr = None,
      control_host_port = ''6818'',
      hostname = ''node0''\<rparr>"

definition reg :: "string \<Rightarrow> int \<Rightarrow> int \<Rightarrow> inode" where
  "reg c u g = \<lparr>kind = Reg c, st_uid = u, st_gid = g\<rparr>"

definition dir :: "int \<Rightarrow> int \<Rightarrow> inode" where
  "dir u g = \<lparr>kind = Dir, st_uid = u, st_gid = g\<rparr>"

definition lnk :: "string \<Rightarrow> inode" where
  "lnk t = \<lparr>kind = Symlink t, st_uid = 0, st_gid = 0\<rparr>"

definition sample_host :: "(string \<rightharpoonup> inode) \<Rightarrow> host" where
  "sample_host f =
     \<lparr>fs = f,
      passwd = [''slurm'' \<mapsto> 10, ''munge'' \<mapsto> 11],
      grp = [''slurm'' \<mapsto> 10, ''munge'' \<mapsto> 11],
      euid = 0,
      egid = 0\<rparr>"

definition sample_world :: "string \<Rightarrow> (string \<rightharpoonup> inode) \<Rightarrow> world" where
  "sample_world role f =
     \<lparr>host = sample_host f, logs = [], trace = [], fetches = 0, lkp = sample_lookup role\<rparr>"

definition sample_env :: env where
  "sample_env =
     \<lparr>exec = (\<lambda>w cmd timeout shell. (Exited 0 [] [], host w)),
      check_default = True,
      source = (\<lambda>bucket n.
        if n < 2 then Inl (DeffetiveStoredConfigError ''no config'')
        else Inr (sample_lookup ''gateway'')),
      instance_metadata = (\<lambda>path. raiseE (Exception ''MetadataNotFoundError'')),
      install_custom_scripts = returnE (),
      gen_controller_configs = returnE (),
      setup_network_storage = returnE (),
      setup_nfs_exports = returnE (),
      sync_slurm = returnE (),
      chown_slurm = (\<lambda>path mode. returnE ()),
      mkdirp = (\<lambda>path. returnE ()),
      get_log_path = ''/slurm/scripts/log/setup.log'',
      rglob = (\<lambda>l d. []),
      subtree = (\<lambda>l p. None),
      add_cluster_info = (\<lambda>txt cluster host. Inr txt),
      scripts_dir = ''/slurm/scripts'',
      dirs_values = [''/slurm'', ''/slurm/scripts'', ''/slurm/custom_scripts'',
        ''/etc/munge'', ''/var/log/slurm''],
      dirs_slurm = ''/slurm'',
      dirs_scripts = ''/slurm/scripts'',
      dirs_custom_scripts = ''/slurm/custom_scripts'',
      dirs_munge = ''/etc/munge'',
      dirs_log = ''/var/log/slurm'',
      slurmdirs_items = [(''prefix'', ''/usr/local''), (''etc'', ''/usr/local/etc/slurm''),
        (''state'', ''/var/spool/slurm''), (''home'', ''/var/lib/slurm'')],
      slurmdirs_prefix = ''/usr/local'',
      slurmdirs_etc = ''/usr/local/etc/slurm'',
      slurmdirs_state = ''/var/spool/slurm'',
      slurmdirs_home = ''/var/lib/slurm''\<rparr>"

subsection \<open>Notions of the specification\<close>

text \<open>
  The configuration key of the category of a hook script: the key the loop reads for a
  script in \<^verbatim>\<open>controller.d\<close>, in \<^verbatim>\<open>compute.d\<close> or \<^verbatim>\<open>nodeset.d\<close>, in \<^verbatim>\<open>login.d\<close>.
\<close>

definition script_category_key :: "string \<Rightarrow> string option" where
  "script_category_key script =
     (if str_in ''/controller.d/'' script then Some ''controller_startup_scripts_timeout''
      else if str_in ''/compute.d/'' script \<or> str_in ''/nodeset.d/'' script then
        Some ''compute_startup_scripts_timeout''
      else if str_in ''/login.d/'' script then Some ''login_startup_scripts_timeout''
      else None)"

text \<open>The sample environment with one fixed answer to every command.\<close>

definition answering_env :: "int \<Rightarrow> string \<Rightarrow> env" where
  "answering_env rc out =
     sample_env\<lparr>exec := (\<lambda>w cmd timeout shell. (Exited rc out [], host w))\<rparr>"

text \<open>
  What the operating system makes of a hook script that the loop starts in world \<open>w\<close>,
  and the exception that outcome stands for: a script that cannot be executed, one that
  exceeds its time limit, one that exits with a non-zero status.
\<close>

definition script_outcome :: "env \<Rightarrow> string \<Rightarrow> world \<Rightarrow> outcome" where
  "script_outcome env script w =
     (let timeout = script_timeout (cfg (lkp w)) script in
      fst (exec env
        (snd (log_at INFO (''running script '' @ basename script @ '' with timeout=''
           @ str_timeout timeout) w))
        script timeout True))"

definition script_error :: "string \<Rightarrow> outcome \<Rightarrow> error option" where
  "script_error script out =
     (case out of
        SpawnError oe \<Rightarrow> Some (OSError oe)
      | TimedOut \<Rightarrow> Some (TimeoutExpired script)
      | Exited rc sout serr \<Rightarrow> (if rc \<noteq> 0 then Some (CalledProcessError script rc) else None))"

text \<open>The sample environment in which one command fails, each in its own way.\<close>

definition failing_env :: "string \<Rightarrow> outcome \<Rightarrow> env" where
  "failing_env bad out =
     sample_env\<lparr>exec := (\<lambda>w cmd timeout shell.
       (if cmd = bad then out else Exited 0 [] [], host w))\<rparr>"

text \<open>
  The paths below a directory, as its tree lists them (every entry, at any depth), and
  the paths of a subtree: its root and all that is below it.
\<close>

fun descendants :: "string \<Rightarrow> dtree \<Rightarrow> string list" where
  "descendants root (FileT n) = []"
| "descendants root (DirT n es) =
     concat (map (\<lambda>e. path_join root (tname e) # descendants (path_join root (tname e)) e) es)"

definition subtree_paths :: "env \<Rightarrow> world \<Rightarrow> string \<Rightarrow> string list" where
  "subtree_paths env w path =
     path # (case subtree env (layout (host w)) path of None \<Rightarrow> [] | Some t \<Rightarrow> descendants path t)"

text \<open>The paths that the loop over \<^verbatim>\<open>os.walk\<close> hands to \<^verbatim>\<open>_my_chown\<close>, in its order.\<close>

definition walk_paths :: "(string \<times> string list \<times> string list) list \<Rightarrow> string list" where
  "walk_paths ts = concat (map (\<lambda>(r, ds, fls). map (path_join r) ds @ map (path_join r) fls) ts)"

text \<open>
  The files that a list of paths leads to, symbolic links followed: what \<^verbatim>\<open>stat\<close> and
  \<^verbatim>\<open>os.chown\<close> act on when they are given one of the paths.
\<close>

definition link_targets :: "world \<Rightarrow> string list \<Rightarrow> string set" where
  "link_targets w ps = {q. \<exists>p \<in> set ps. follow (layout (host w)) 40 p = Some q}"

text \<open>
  A numeric user or group id that can be given to a file: from 0 to \<open>2^32 - 2\<close>.
\<close>

definition valid_id :: "int \<Rightarrow> bool" where
  "valid_id i = (0 \<le> i \<and> i < 4294967295)"

text \<open>
  The ownership remap of one file in the words of the specification: the uid becomes
  the target uid if no guard was given (\<open>-1\<close>) or the uid equals the guard, and
  independently the same for the gid. \<open>remap_fs\<close> is a file system with the files
  at the given paths remapped and every other entry untouched.
\<close>

definition remapped :: "int \<Rightarrow> int \<Rightarrow> int \<Rightarrow> int \<Rightarrow> inode \<Rightarrow> inode" where
  "remapped uid gid prev_uid prev_gid i =
     i\<lparr>st_uid := (if prev_uid = - 1 \<or> st_uid i = prev_uid then uid else st_uid i),
       st_gid := (if prev_gid = - 1 \<or> st_gid i = prev_gid then gid else st_gid i)\<rparr>"

definition remap_fs ::
  "string set \<Rightarrow> int \<Rightarrow> int \<Rightarrow> int \<Rightarrow> int \<Rightarrow> (string \<rightharpoonup> inode) \<Rightarrow> (string \<rightharpoonup> inode)" where
  "remap_fs S uid gid prev_uid prev_gid f =
     (\<lambda>p. if p \<in> S then map_option (remapped uid gid prev_uid prev_gid) (f p) else f p)"

text \<open>
  A sample subtree \<^verbatim>\<open>/srv\<close> with entries of the uids 10, 20 and 30, and a file outside it.
\<close>

definition srv_env :: env where
  "srv_env =
     sample_env\<lparr>subtree := (\<lambda>l p.
       if p = ''/srv'' then Some (DirT ''srv'' [DirT ''a'' [FileT ''x''], FileT ''y''])
       else None)\<rparr>"

definition srv_fs :: "string \<rightharpoonup> inode" where
  "srv_fs =
     [''/srv'' \<mapsto> dir 10 10,
      ''/srv/a'' \<mapsto> dir 20 10,
      ''/srv/a/x'' \<mapsto> reg ''x'' 10 30,
      ''/srv/y'' \<mapsto> reg ''y'' 30 30,
      ''/other'' \<mapsto> reg ''o'' 10 10]"

text \<open>
  The same subtree with one more entry: \<^verbatim>\<open>/srv/l\<close>, a symbolic link of uid 10 to the file
  outside it.
\<close>

definition srv_link_env :: env where
  "srv_link_env =
     sample_env\<lparr>subtree := (\<lambda>l p.
       if p = ''/srv'' then Some (DirT ''srv'' [DirT ''a'' [FileT ''x''], FileT ''y'', FileT ''l''])
       else None)\<rparr>"

definition srv_link_fs :: "string \<rightharpoonup> inode" where
  "srv_link_fs = srv_fs(''/srv/l'' \<mapsto> \<lparr>kind = Symlink ''/other'', st_uid = 10, st_gid = 10\<rparr>)"

text \<open>
  What calls of \<^verbatim>\<open>_my_chown\<close> with one set of arguments can make of an entry: it stays
  the kind of node it is; its uid stays, or it passed the uid guard and is now the
  target uid; independently the same for its gid.
\<close>

definition remap_change :: "int \<Rightarrow> int \<Rightarrow> int \<Rightarrow> int \<Rightarrow> inode option \<Rightarrow> inode option \<Rightarrow> bool" where
  "remap_change uid gid prev_uid prev_gid old new =
     (case old of
        None \<Rightarrow> new = None
      | Some i \<Rightarrow>
          (case new of
             None \<Rightarrow> False
           | Some j \<Rightarrow>
               kind j = kind i
               \<and> (st_uid j = st_uid i \<or> (prev_uid = - 1 \<or> st_uid i = prev_uid) \<and> st_uid j = uid)
               \<and> (st_gid j = st_gid i \<or> (prev_gid = - 1 \<or> st_gid i = prev_gid) \<and> st_gid j = gid)))"

text \<open>
  Two worlds that differ by such calls: only in the file system, only in entries of \<open>S\<close>,
  and there only by changes of that form.
\<close>

definition chown_rel :: "string set \<Rightarrow> int \<Rightarrow> int \<Rightarrow> int \<Rightarrow> int \<Rightarrow> world \<Rightarrow> world \<Rightarrow> bool" where
  "chown_rel S uid gid prev_uid prev_gid w w' =
     (\<exists>f'. w' = set_fs f' w
        \<and> (\<forall>q. remap_change uid gid prev_uid prev_gid (fs (host w) q) (f' q))
        \<and> (\<forall>q. q \<notin> S \<longrightarrow> f' q = fs (host w) q))"

text \<open>
  A change of an entry under a guard by the previous ids of the identity: the entry
  stays the kind of node it is; its uid stays, or was the previous uid and is now the
  new one; independently the same for its gid. An entry of an unrelated owner stays as
  it is.
\<close>

definition guarded_change :: "int \<Rightarrow> int \<Rightarrow> int \<Rightarrow> int \<Rightarrow> inode option \<Rightarrow> inode option \<Rightarrow> bool" where
  "guarded_change cur_uid cur_gid uid gid old new =
     (case old of
        None \<Rightarrow> new = None
      | Some i \<Rightarrow>
          (case new of
             None \<Rightarrow> False
           | Some j \<Rightarrow>
               kind j = kind i
               \<and> (st_uid j = st_uid i \<or> st_uid i = cur_uid \<and> st_uid j = uid)
               \<and> (st_gid j = st_gid i \<or> st_gid i = cur_gid \<and> st_gid j = gid)))"

text \<open>
  The world after the command lines \<open>cs\<close> were run through \<^verbatim>\<open>util.run\<close>, one after the
  other, and nothing else was done; and a command that came to its end with status 0.
\<close>

fun after_run :: "env \<Rightarrow> string list \<Rightarrow> world \<Rightarrow> world" where
  "after_run env [] w = w"
| "after_run env (c # cs) w =
     after_run env cs (w\<lparr>host := snd (exec env w c None False),
                           trace := trace w @ [Ran c (fst (exec env w c None False))]\<rparr>)"

fun succeeded :: "event \<Rightarrow> bool" where
  "succeeded (Ran c (Exited rc sout serr)) = (rc = 0)"
| "succeeded e = False"

text \<open>
  A sample host for the hybrid migration: the identity \<^verbatim>\<open>slurm\<close> has uid and gid 10 and
  is to get uid 99 and gid 98. Its home and the configuration directory each hold a file
  of the unrelated owner 20.
\<close>

definition hybrid_env :: env where
  "hybrid_env =
     sample_env\<lparr>subtree := (\<lambda>l p.
       if p = ''/var/lib/slurm'' then Some (DirT ''slurm'' [FileT ''notes''])
       else if p = ''/usr/local/etc/slurm'' then
         Some (DirT ''slurm'' [FileT ''slurm.conf'', FileT ''site.conf''])
       else if p = ''/var/log/slurm'' then Some (DirT ''slurm'' [])
       else if p = ''/slurm'' then Some (DirT ''slurm'' [])
       else None)\<rparr>"

definition hybrid_fs :: "string \<rightharpoonup> inode" where
  "hybrid_fs =
     [''/var/lib/slurm'' \<mapsto> dir 10 10,
      ''/var/lib/slurm/notes'' \<mapsto> reg ''n'' 20 20,
      ''/usr/local/etc/slurm'' \<mapsto> dir 10 10,
      ''/usr/local/etc/slurm/slurm.conf'' \<mapsto> reg ''c'' 10 10,
      ''/usr/local/etc/slurm/site.conf'' \<mapsto> reg ''s'' 20 20,
      ''/var/log/slurm'' \<mapsto> dir 10 10,
      ''/slurm'' \<mapsto> dir 0 0]"

text \<open>
  A sample controller host whose state disk holds a file system: \<^verbatim>\<open>realpath\<close> and
  \<^verbatim>\<open>file -s\<close> answer as they do on such a host, every other command exits with status 0.
\<close>

definition disk_env :: env where
  "disk_env =
     sample_env\<lparr>exec := (\<lambda>w cmd timeout shell.
       (if startswith cmd ''realpath '' then Exited 0 (''/dev/sdb'' @ [nl]) []
        else if startswith cmd ''file -s '' then
          Exited 0 (''/dev/sdb: Linux rev 1.0 ext4 filesystem data'' @ [nl]) []
        else Exited 0 [] [],
        host w))\<rparr>"

definition fstab_fs :: "string \<rightharpoonup> inode" where
  "fstab_fs = [''/etc/fstab'' \<mapsto> reg (''LABEL=root / ext4 defaults 0 1'' @ [nl]) 0 0]"

text \<open>A store that answers the first fetch.\<close>

definition ready_env :: env where
  "ready_env = sample_env\<lparr>source := (\<lambda>bucket n. Inr (sample_lookup ''gateway''))\<rparr>"

text \<open>
  A host at first boot, with the configuration of the logging agent and the auxiliary
  script that \<^verbatim>\<open>configure_dirs\<close> copies.
\<close>

definition boot_fs :: "string \<rightharpoonup> inode" where
  "boot_fs =
     [''/etc/google-cloud-ops-agent/config.yaml'' \<mapsto> reg ''logging: {}'' 0 0,
      ''/slurm/scripts/sort_nodes.py'' \<mapsto> reg ''#!/usr/bin/env python3'' 0 0]"

section \<open>Properties\<close>

lemmas act_simps = bindE_def thenE_def returnE_def raiseE_def whenE_def log_at_def

lemmas fs_defs = path_exists_def is_symlink_def is_dir_def is_file_def resolve_def follow.simps
  layout_def set_fs_def write_text_def append_text_def read_text_def makedirs_def

lemmas sample_defs = sample_env_def sample_world_def sample_host_def sample_lookup_def
  sample_config_def dir_def reg_def

subsection \<open>Cluster registration\<close>

text \<open>
  Claim C4. Whatever the registration command exits with (status \<open>rc\<close>, output \<open>out\<close>),
  the step raises if and only if \<open>rc\<close> is greater than 1 and the output does not contain
  "already exists". An output with "already exists" is logged and the step returns;
  in the remaining case the step returns and logs nothing.
\<close>

theorem register_cluster_escalates:
  assumes "exec env w (slurmdirs_prefix env @ ''/bin/sacctmgr -i add cluster ''
             @ slurm_cluster_name (cfg (lkp w))) (Some 30) False = (Exited rc out err, h)"
  shows "((\<exists>e. fst (register_cluster env w) = Inl e)
            \<longleftrightarrow> (1 < rc \<and> \<not> str_in ''already exists'' out))
       \<and> register_cluster env w =
           (let cmd = slurmdirs_prefix env @ ''/bin/sacctmgr -i add cluster ''
                  @ slurm_cluster_name (cfg (lkp w));
                w' = w\<lparr>host := h, trace := trace w @ [Ran cmd (Exited rc out err)]\<rparr>
            in if str_in ''already exists'' out then
                 (Inr (), w'\<lparr>logs := logs w @ [(INFO, out)]\<rparr>)
               else if 1 < rc then (Inl (CalledProcessError cmd rc), w')
               else (Inr (), w'))"
  using assms
  by (auto simp add: register_cluster_def run_def check_returncode_def act_simps Let_def)

theorem register_cluster_escalates_witness:
  "fst (register_cluster (answering_env 1 '' This cluster hpc already exists.  Not adding.'')
          (sample_world ''controller'' Map.empty)) = Inr ()
   \<and> fst (register_cluster (answering_env 2 ''sacctmgr: error: Problem talking to the database'')
          (sample_world ''controller'' Map.empty))
       = Inl (CalledProcessError ''/usr/local/bin/sacctmgr -i add cluster hpc'' 2)
   \<and> fst (register_cluster (answering_env 1 '' Nothing added.'')
          (sample_world ''controller'' Map.empty)) = Inr ()"
  using
    register_cluster_escalates [of "answering_env 1 '' This cluster hpc already exists.  Not adding.''"
      "sample_world ''controller'' Map.empty" 1 "'' This cluster hpc already exists.  Not adding.''"
      "[]" "sample_host Map.empty"]
    register_cluster_escalates [of "answering_env 2 ''sacctmgr: error: Problem talking to the database''"
      "sample_world ''controller'' Map.empty" 2 "''sacctmgr: error: Problem talking to the database''"
      "[]" "sample_host Map.empty"]
    register_cluster_escalates [of "answering_env 1 '' Nothing added.''"
      "sample_world ''controller'' Map.empty" 1 "'' Nothing added.''"
      "[]" "sample_host Map.empty"]
  by (simp add: answering_env_def sample_env_def sample_world_def sample_lookup_def
      sample_config_def Let_def)

subsection \<open>Time limit of a hook script\<close>

text \<open>
  Claim C5. For a hook script whose category has the configuration key \<open>key\<close>: a
  positive configured value is the time limit; a configured value of zero or below
  means no limit; with the key unset the limit is 300 seconds.
\<close>

theorem script_timeout_precedence:
  assumes "script_category_key script = Some key"
  shows "(\<forall>t. cfg_items c key = Some (Some t) \<and> 0 < t \<longrightarrow> script_timeout c script = Some t)
       \<and> (\<forall>t. cfg_items c key = Some (Some t) \<and> t \<le> 0 \<longrightarrow> script_timeout c script = None)
       \<and> (cfg_items c key = None \<longrightarrow> script_timeout c script = Some 300)"
  using assms
  by (auto simp add: script_category_key_def script_timeout_def cfg_get_def split: if_splits)

theorem script_timeout_precedence_witness:
  "script_timeout sample_config ''/slurm/custom_scripts/controller.d/10-users.sh'' = Some 600
   \<and> script_timeout sample_config ''/slurm/custom_scripts/nodeset.d/gpu/driver.sh'' = None
   \<and> script_timeout sample_config ''/slurm/custom_scripts/login.d/motd.sh'' = Some 300
   \<and> script_timeout (sample_config\<lparr>cfg_items := [''login_startup_scripts_timeout'' \<mapsto> Some (- 5)]\<rparr>)
         ''/slurm/custom_scripts/login.d/motd.sh'' = None"
  using
    script_timeout_precedence [of "''/slurm/custom_scripts/controller.d/10-users.sh''"
      "''controller_startup_scripts_timeout''" sample_config]
    script_timeout_precedence [of "''/slurm/custom_scripts/nodeset.d/gpu/driver.sh''"
      "''compute_startup_scripts_timeout''" sample_config]
    script_timeout_precedence [of "''/slurm/custom_scripts/login.d/motd.sh''"
      "''login_startup_scripts_timeout''" sample_config]
    script_timeout_precedence [of "''/slurm/custom_scripts/login.d/motd.sh''"
      "''login_startup_scripts_timeout''"
      "sample_config\<lparr>cfg_items := [''login_startup_scripts_timeout'' \<mapsto> Some (- 5)]\<rparr>"]
  by (simp add: script_category_key_def sample_config_def)

subsection \<open>Hook scripts\<close>

lemma ran_cmds_append: "ran_cmds (xs @ ys) = ran_cmds xs @ ran_cmds ys"
  by (induction xs rule: ran_cmds.induct) simp_all

lemma run_script_trace:
  "ran_cmds (trace (snd (run_script env s t w))) = ran_cmds (trace w) @ [s]"
  by (auto simp add: run_script_def run_def check_returncode_def act_simps ran_cmds_append Let_def
      split: prod.splits outcome.splits sum.splits)

lemma run_script_fst:
  "fst (run_script env s (script_timeout (cfg (lkp w)) s) w)
     = (case script_error s (script_outcome env s w) of Some e \<Rightarrow> Inl e | None \<Rightarrow> Inr ())"
  by (auto simp add: run_script_def run_def check_returncode_def act_simps script_error_def
      script_outcome_def Let_def split: prod.splits outcome.splits sum.splits)

lemma script_failed_result:
  "fst (script_failed s t e w) = Inl e \<and> trace (snd (script_failed s t e w)) = trace w"
  by (simp add: script_failed_def act_simps split: error.splits)

lemma run_scripts_ok_append:
  "run_scripts env pre w = (Inr (), w1) \<Longrightarrow> run_scripts env (pre @ rest) w = run_scripts env rest w1"
proof (induction pre arbitrary: w)
  case Nil
  then show ?case by simp
next
  case (Cons a pre)
  obtain r w' where rs: "run_script env a (script_timeout (cfg (lkp w)) a) w = (r, w')"
    by (cases "run_script env a (script_timeout (cfg (lkp w)) a) w")
  show ?case
  proof (cases r)
    case (Inl e)
    with rs Cons.prems have "fst (script_failed a (script_timeout (cfg (lkp w)) a) e w') = Inr ()"
      by (simp add: Let_def)
    then show ?thesis by (simp add: script_failed_result)
  next
    case (Inr u)
    with rs Cons.prems have "run_scripts env pre w' = (Inr (), w1)"
      by (simp add: Let_def)
    then have "run_scripts env (pre @ rest) w' = run_scripts env rest w1"
      by (rule Cons.IH)
    with rs Inr show ?thesis by (simp add: Let_def)
  qed
qed

lemma run_scripts_ok_trace:
  "run_scripts env pre w = (Inr (), w1) \<Longrightarrow> ran_cmds (trace w1) = ran_cmds (trace w) @ pre"
proof (induction pre arbitrary: w)
  case Nil
  then show ?case by simp
next
  case (Cons a pre)
  obtain r w' where rs: "run_script env a (script_timeout (cfg (lkp w)) a) w = (r, w')"
    by (cases "run_script env a (script_timeout (cfg (lkp w)) a) w")
  have tr: "ran_cmds (trace w') = ran_cmds (trace w) @ [a]"
    using run_script_trace [of env a "script_timeout (cfg (lkp w)) a" w] rs by simp
  show ?case
  proof (cases r)
    case (Inl e)
    with rs Cons.prems have "fst (script_failed a (script_timeout (cfg (lkp w)) a) e w') = Inr ()"
      by (simp add: Let_def)
    then show ?thesis by (simp add: script_failed_result)
  next
    case (Inr u)
    with rs Cons.prems have "run_scripts env pre w' = (Inr (), w1)"
      by (simp add: Let_def)
    then have "ran_cmds (trace w1) = ran_cmds (trace w') @ pre"
      by (rule Cons.IH)
    with tr show ?thesis by simp
  qed
qed

text \<open>
  Claim C6. The loop starts the hook scripts one after the other, in the order of the
  list. When the scripts of \<open>pre\<close> have run without failure and the next script \<open>s\<close>
  cannot be executed, exceeds its time limit or exits with a non-zero status, the loop
  raises the exception of that failure, and the commands it started are those of \<open>pre\<close>
  and \<open>s\<close>, in this order, and nothing else: none of the scripts \<open>post\<close> that follow.
\<close>

theorem run_scripts_fail_fast:
  assumes pre: "run_scripts env pre w = (Inr (), w1)"
    and fail: "script_error s (script_outcome env s w1) = Some e"
  shows "fst (run_scripts env (pre @ s # post) w) = Inl e
       \<and> ran_cmds (trace (snd (run_scripts env (pre @ s # post) w))) = ran_cmds (trace w) @ pre @ [s]"
proof -
  let ?t = "script_timeout (cfg (lkp w1)) s"
  obtain r w2 where rs: "run_script env s ?t w1 = (r, w2)"
    by (cases "run_script env s ?t w1")
  from fail have "fst (run_script env s ?t w1) = Inl e"
    by (simp add: run_script_fst)
  with rs have r: "r = Inl e" by simp
  have tr2: "ran_cmds (trace w2) = ran_cmds (trace w1) @ [s]"
    using run_script_trace [of env s ?t w1] rs by simp
  have tr1: "ran_cmds (trace w1) = ran_cmds (trace w) @ pre"
    using pre by (rule run_scripts_ok_trace)
  have "run_scripts env (pre @ s # post) w = run_scripts env (s # post) w1"
    using pre by (rule run_scripts_ok_append)
  also have "\<dots> = script_failed s ?t e w2"
    using rs r by (simp add: Let_def)
  finally have eq: "run_scripts env (pre @ s # post) w = script_failed s ?t e w2" .
  show ?thesis
    using tr1 tr2 by (simp add: eq script_failed_result)
qed

theorem run_scripts_fail_fast_witness:
  "fst (run_scripts (failing_env ''/s/controller.d/b.sh'' (Exited 3 [] ''boom''))
         [''/s/controller.d/a.sh'', ''/s/controller.d/b.sh'', ''/s/controller.d/c.sh'']
         (sample_world ''controller'' Map.empty))
     = Inl (CalledProcessError ''/s/controller.d/b.sh'' 3)
   \<and> ran_cmds (trace (snd (run_scripts (failing_env ''/s/controller.d/b.sh'' (Exited 3 [] ''boom''))
         [''/s/controller.d/a.sh'', ''/s/controller.d/b.sh'', ''/s/controller.d/c.sh'']
         (sample_world ''controller'' Map.empty))))
     = [''/s/controller.d/a.sh'', ''/s/controller.d/b.sh'']
   \<and> fst (run_scripts (failing_env ''/s/controller.d/b.sh'' TimedOut)
         [''/s/controller.d/a.sh'', ''/s/controller.d/b.sh'', ''/s/controller.d/c.sh'']
         (sample_world ''controller'' Map.empty))
     = Inl (TimeoutExpired ''/s/controller.d/b.sh'')
   \<and> fst (run_scripts (failing_env ''/s/controller.d/a.sh'' (SpawnError PermissionError))
         [''/s/controller.d/a.sh'', ''/s/controller.d/b.sh'', ''/s/controller.d/c.sh'']
         (sample_world ''controller'' Map.empty))
     = Inl (OSError PermissionError)
   \<and> ran_cmds (trace (snd (run_scripts (failing_env ''/s/controller.d/a.sh'' (SpawnError PermissionError))
         [''/s/controller.d/a.sh'', ''/s/controller.d/b.sh'', ''/s/controller.d/c.sh'']
         (sample_world ''controller'' Map.empty))))
     = [''/s/controller.d/a.sh'']"
  using
    run_scripts_fail_fast [of "failing_env ''/s/controller.d/b.sh'' (Exited 3 [] ''boom'')"
      "[''/s/controller.d/a.sh'']" "sample_world ''controller'' Map.empty"
      "snd (run_scripts (failing_env ''/s/controller.d/b.sh'' (Exited 3 [] ''boom''))
         [''/s/controller.d/a.sh''] (sample_world ''controller'' Map.empty))"
      "''/s/controller.d/b.sh''" "CalledProcessError ''/s/controller.d/b.sh'' 3"
      "[''/s/controller.d/c.sh'']"]
    run_scripts_fail_fast [of "failing_env ''/s/controller.d/b.sh'' TimedOut"
      "[''/s/controller.d/a.sh'']" "sample_world ''controller'' Map.empty"
      "snd (run_scripts (failing_env ''/s/controller.d/b.sh'' TimedOut)
         [''/s/controller.d/a.sh''] (sample_world ''controller'' Map.empty))"
      "''/s/controller.d/b.sh''" "TimeoutExpired ''/s/controller.d/b.sh''"
      "[''/s/controller.d/c.sh'']"]
    run_scripts_fail_fast [of "failing_env ''/s/controller.d/a.sh'' (SpawnError PermissionError)"
      "[]" "sample_world ''controller'' Map.empty" "sample_world ''controller'' Map.empty"
      "''/s/controller.d/a.sh''" "OSError PermissionError"
      "[''/s/controller.d/b.sh'', ''/s/controller.d/c.sh'']"]
  by (simp add: failing_env_def sample_env_def sample_world_def sample_lookup_def
      sample_config_def script_error_def script_outcome_def run_script_def run_def
      check_returncode_def act_simps script_timeout_def cfg_get_def Let_def)

subsection \<open>Acquiring the configuration\<close>

lemma get_config_try_ok:
  "source env bucket (fetches w) = Inr c \<Longrightarrow>
   get_config_try env bucket w =
     (Inr (), w\<lparr>fetches := Suc (fetches w), trace := trace w @ [Fetched],
                lkp := (if bucket = None then c else c\<lparr>hybrid_setup := True\<rparr>)\<rparr>)"
  by (simp add: get_config_try_def fetch_config_def update_config_def act_simps)

lemma get_config_try_fail:
  "source env bucket (fetches w) = Inl e \<Longrightarrow>
   get_config_try env bucket w =
     (Inl e, w\<lparr>fetches := Suc (fetches w), trace := trace w @ [Fetched]\<rparr>)"
  by (simp add: get_config_try_def fetch_config_def act_simps)

lemma get_config_except_logs:
  "\<exists>l m. get_config_except e w = (Inr (), w\<lparr>logs := logs w @ [(l, m)]\<rparr>)"
  by (cases e) (auto simp add: get_config_except_def log_at_def intro: exI)

lemma get_config_loop_retries:
  assumes "\<forall>i<k. \<exists>e. source env bucket (fetches w + i) = Inl e"
    and "source env bucket (fetches w + k) = Inr c"
  shows "\<exists>w'. get_config_loop env bucket w = Some w'
       \<and> trace w' = trace w @ concat (replicate k [Fetched, Slept 5]) @ [Fetched]
       \<and> lkp w' = (if bucket = None then c else c\<lparr>hybrid_setup := True\<rparr>)
       \<and> fetches w' = fetches w + k + 1
       \<and> host w' = host w
       \<and> length (logs w') = length (logs w) + k"
  using assms
proof (induction k arbitrary: w)
  case 0
  then have "source env bucket (fetches w) = Inr c" by simp
  then show ?case
    by (subst get_config_loop.simps) (simp add: get_config_try_ok)
next
  case (Suc k)
  from Suc.prems(1) obtain e where e: "source env bucket (fetches w) = Inl e"
    by force
  obtain l m where lm: "get_config_except e (w\<lparr>fetches := Suc (fetches w), trace := trace w @ [Fetched]\<rparr>)
      = (Inr (), w\<lparr>fetches := Suc (fetches w), trace := trace w @ [Fetched], logs := logs w @ [(l, m)]\<rparr>)"
    using get_config_except_logs [of e "w\<lparr>fetches := Suc (fetches w), trace := trace w @ [Fetched]\<rparr>"]
    by auto
  let ?w2 = "w\<lparr>fetches := Suc (fetches w), logs := logs w @ [(l, m)],
      trace := trace w @ [Fetched, Slept 5]\<rparr>"
  have step: "get_config_loop env bucket w = get_config_loop env bucket ?w2"
    by (subst get_config_loop.simps) (simp add: get_config_try_fail [OF e] lm sleep_def)
  have a: "\<forall>i<k. \<exists>e. source env bucket (fetches ?w2 + i) = Inl e"
    using Suc.prems(1) by (auto dest: spec [where x = "Suc i" for i])
  have b: "source env bucket (fetches ?w2 + k) = Inr c"
    using Suc.prems(2) by simp
  from Suc.IH [OF a b] show ?case
    by (auto simp add: step)
qed

text \<open>
  Claim C7. When the configuration store fails the next \<open>k\<close> fetches, with a not-ready
  error or any other, and answers the one after them with a configuration \<open>c\<close>, then
  \<^verbatim>\<open>get_config\<close> returns, it returns normally, and what it did is: a fetch and a sleep of
  5 seconds \<open>k\<close> times over, then one more fetch with no sleep after it. On return \<open>c\<close>
  is the active configuration (marked as hybrid when a bucket was given).
\<close>

theorem get_config_retries:
  assumes "\<forall>i<k. \<exists>e. source env bucket (fetches w + i) = Inl e"
    and "source env bucket (fetches w + k) = Inr c"
  shows "\<exists>w'. get_config env bucket w = Some (Inr (), w')
       \<and> trace w' = trace w @ concat (replicate k [Fetched, Slept 5]) @ [Fetched]
       \<and> lkp w' = (if bucket = None then c else c\<lparr>hybrid_setup := True\<rparr>)"
proof -
  from get_config_loop_retries [OF assms] obtain w1 where
    w1: "get_config_loop env bucket w = Some w1"
      "trace w1 = trace w @ concat (replicate k [Fetched, Slept 5]) @ [Fetched]"
      "lkp w1 = (if bucket = None then c else c\<lparr>hybrid_setup := True\<rparr>)"
    by blast
  then show ?thesis
    by (simp add: get_config_def log_at_def)
qed

theorem get_config_retries_witness:
  "map_option fst (get_config sample_env None (sample_world ''compute'' Map.empty)) = Some (Inr ())
   \<and> map_option (\<lambda>r. trace (snd r)) (get_config sample_env None (sample_world ''compute'' Map.empty))
       = Some [Fetched, Slept 5, Fetched, Slept 5, Fetched]
   \<and> map_option (\<lambda>r. lkp (snd r)) (get_config sample_env None (sample_world ''compute'' Map.empty))
       = Some (sample_lookup ''gateway'')"
  using get_config_retries [of 2 sample_env None "sample_world ''compute'' Map.empty"
      "sample_lookup ''gateway''"]
  by (auto simp add: sample_env_def sample_world_def numeral_2_eq_2)

subsection \<open>Recursive change of ownership\<close>

lemma set_fs_simps:
  "fs (host (set_fs f w)) = f"
  "set_fs g (set_fs f w) = set_fs g w"
  "set_fs (fs (host w)) w = w"
  "trace (set_fs f w) = trace w"
  "logs (set_fs f w) = logs w"
  "lkp (set_fs f w) = lkp w"
  "fetches (set_fs f w) = fetches w"
  by (simp_all add: set_fs_def)

lemma layout_set_fs: "layout (host (set_fs f w)) = (\<lambda>p. map_option kind (f p))"
  by (rule ext) (simp add: layout_def set_fs_def)

lemma remapped_idem: "remapped u g pu pg (remapped u g pu pg i) = remapped u g pu pg i"
  by (simp add: remapped_def)

lemma kind_remapped: "kind (remapped u g pu pg i) = kind i"
  by (simp add: remapped_def)

lemma my_chown_resolved:
  assumes "follow (layout (host w)) 40 p = Some q" and "fs (host w) q = Some i"
    and "valid_id uid" and "valid_id gid"
  shows "my_chown p uid gid pu pg w =
           (Inr (), set_fs ((fs (host w))(q \<mapsto> remapped uid gid pu pg i)) w)"
proof -
  have r: "resolve w p = Some (q, i)"
    using assms(1,2) by (simp add: resolve_def)
  have triv: "set_fs ((fs (host w))(q \<mapsto> i)) w = w"
    using assms(2) by (simp add: set_fs_def map_upd_triv)
  show ?thesis
    using assms(3,4) triv
    by (auto simp add: my_chown_def stat_def os_chown_def r act_simps remapped_def Let_def
        valid_id_def)
qed

lemma layout_remap_step:
  "fs (host w) q = Some i \<Longrightarrow>
   layout (host (set_fs ((fs (host w))(q \<mapsto> remapped u g pu pg i)) w)) = layout (host w)"
  by (auto simp add: layout_set_fs layout_def kind_remapped fun_eq_iff)

lemma link_targets_layout:
  "layout (host w') = layout (host w) \<Longrightarrow> link_targets w' ps = link_targets w ps"
  by (simp add: link_targets_def)

lemma link_targets_Cons: "link_targets w (p # ps) = link_targets w [p] \<union> link_targets w ps"
  by (auto simp add: link_targets_def)

lemma path_exists_iff:
  "path_exists w p \<longleftrightarrow> (\<exists>q i. follow (layout (host w)) 40 p = Some q \<and> fs (host w) q = Some i)"
  by (auto simp add: path_exists_def resolve_def split: option.splits)

lemma seq_my_chown:
  assumes "valid_id uid" and "valid_id gid"
    and "\<forall>p \<in> set ps. path_exists w p"
  shows "seqE (map (\<lambda>p. my_chown p uid gid pu pg) ps) w =
           (Inr (), set_fs (remap_fs (link_targets w ps) uid gid pu pg (fs (host w))) w)"
  using assms(3)
proof (induction ps arbitrary: w)
  case Nil
  show ?case by (simp add: remap_fs_def link_targets_def set_fs_simps)
next
  case (Cons p ps)
  from Cons.prems obtain q i where qi: "follow (layout (host w)) 40 p = Some q"
      "fs (host w) q = Some i"
    by (auto simp add: path_exists_iff)
  let ?f1 = "(fs (host w))(q \<mapsto> remapped uid gid pu pg i)"
  let ?w1 = "set_fs ?f1 w"
  have step: "my_chown p uid gid pu pg w = (Inr (), ?w1)"
    using qi assms(1,2) by (rule my_chown_resolved)
  have lay: "layout (host ?w1) = layout (host w)"
    using qi(2) by (rule layout_remap_step)
  have ex1: "\<forall>p \<in> set ps. path_exists ?w1 p"
  proof
    fix p' assume "p' \<in> set ps"
    with Cons.prems obtain q' i' where "follow (layout (host w)) 40 p' = Some q'"
        "fs (host w) q' = Some i'"
      by (auto simp add: path_exists_iff)
    then show "path_exists ?w1 p'"
      unfolding path_exists_iff lay by (auto simp add: set_fs_simps)
  qed
  have "seqE (map (\<lambda>p. my_chown p uid gid pu pg) ps) ?w1 =
          (Inr (), set_fs (remap_fs (link_targets ?w1 ps) uid gid pu pg (fs (host ?w1))) ?w1)"
    using ex1 by (rule Cons.IH)
  moreover have "link_targets ?w1 ps = link_targets w ps"
    using lay by (rule link_targets_layout)
  moreover have "link_targets w [p] = {q}"
    using qi(1) by (auto simp add: link_targets_def)
  then have "remap_fs (link_targets w ps) uid gid pu pg ?f1
      = remap_fs (link_targets w (p # ps)) uid gid pu pg (fs (host w))"
    using qi(2) by (auto simp add: link_targets_Cons [of w p ps] remap_fs_def remapped_idem fun_eq_iff)
  ultimately show ?case
    by (simp add: step set_fs_simps)
qed

lemma seqE_append:
  "seqE (xs @ ys) w = (case seqE xs w of (Inl e, w') \<Rightarrow> (Inl e, w') | (Inr u, w') \<Rightarrow> seqE ys w')"
  by (induction xs arbitrary: w) (auto split: prod.splits sum.splits)

lemma seqE_pair: "seqE [seqE xs, seqE ys] w = seqE (xs @ ys) w"
  by (simp add: seqE_append split: prod.splits sum.splits)

lemma seqE_concat: "seqE (map (\<lambda>x. seqE (F x)) xs) w = seqE (concat (map F xs)) w"
  by (induction xs arbitrary: w) (auto simp add: seqE_append split: prod.splits sum.splits)

lemma walk_paths_Cons:
  "walk_paths ((r, ds, fls) # ts) = map (path_join r) ds @ map (path_join r) fls @ walk_paths ts"
  by (simp add: walk_paths_def)

lemma walk_loop_flat:
  "seqE (map (\<lambda>(root, dirs, files).
       seqE [seqE (map (\<lambda>d. g (path_join root d)) dirs),
             seqE (map (\<lambda>f. g (path_join root f)) files)]) ts) w
   = seqE (map g (walk_paths ts)) w"
proof (induction ts arbitrary: w)
  case Nil
  show ?case by (simp add: walk_paths_def)
next
  case (Cons t ts)
  let ?F = "\<lambda>(root, dirs, files).
       seqE [seqE (map (\<lambda>d. g (path_join root d)) dirs),
             seqE (map (\<lambda>f. g (path_join root f)) files)]"
  obtain r ds fls where t: "t = (r, ds, fls)" by (cases t)
  let ?ps = "map (path_join r) ds @ map (path_join r) fls"
  have one: "?F t w = seqE (map g ?ps) w"
    unfolding t prod.case by (simp only: seqE_pair map_append map_map comp_def)
  obtain res w' where rw: "seqE (map g ?ps) w = (res, w')"
    by (cases "seqE (map g ?ps) w")
  have lhs: "seqE (map ?F (t # ts)) w =
      (case ?F t w of (Inl e, w') \<Rightarrow> (Inl e, w') | (Inr u, w') \<Rightarrow> seqE (map ?F ts) w')"
    by (simp only: list.map seqE.simps)
  have rhs: "seqE (map g (walk_paths (t # ts))) w =
      (case seqE (map g ?ps) w of (Inl e, w') \<Rightarrow> (Inl e, w')
       | (Inr u, w') \<Rightarrow> seqE (map g (walk_paths ts)) w')"
    unfolding t walk_paths_Cons by (simp only: map_append seqE_append append_assoc [symmetric])
  show ?case
    unfolding lhs rhs one rw by (cases res) (simp_all add: Cons.IH)
qed

lemma walk_paths_concat: "walk_paths (concat tss) = concat (map walk_paths tss)"
  by (induction tss) (simp_all add: walk_paths_def)

lemma set_walk_paths: "set (walk_paths (walk root t)) = set (descendants root t)"
proof (induction root t rule: walk.induct)
  case (1 root n)
  show ?case by (simp add: walk_paths_def)
next
  case (2 root n es)
  have names: "set (map (path_join root) (map tname (filter is_dirT es)))
        \<union> set (map (path_join root) (map tname (filter (\<lambda>e. \<not> is_dirT e) es)))
      = (\<lambda>e. path_join root (tname e)) ` set es"
    by auto
  have "set (walk_paths (walk root (DirT n es)))
      = (\<lambda>e. path_join root (tname e)) ` set es
        \<union> (\<Union>e \<in> set es. set (walk_paths (walk (path_join root (tname e)) e)))"
    by (simp add: walk_paths_Cons walk_paths_concat names [symmetric] Un_assoc)
  also have "\<dots> = (\<lambda>e. path_join root (tname e)) ` set es
        \<union> (\<Union>e \<in> set es. set (descendants (path_join root (tname e)) e))"
    using "2.IH" by simp
  also have "\<dots> = set (descendants root (DirT n es))"
    by auto
  finally show ?case .
qed


lemma set_subtree_paths:
  "set (path # walk_paths (os_walk env w path)) = set (subtree_paths env w path)"
  by (cases "subtree env (layout (host w)) path")
     (simp_all add: subtree_paths_def os_walk_def set_walk_paths, simp add: walk_paths_def)

lemma link_targets_cong: "set ps = set qs \<Longrightarrow> link_targets w ps = link_targets w qs"
  by (simp add: link_targets_def)

lemma subtree_paths_layout:
  "layout (host w') = layout (host w) \<Longrightarrow> subtree_paths env w' path = subtree_paths env w path"
  by (simp add: subtree_paths_def)

lemma layout_remap_fs:
  "layout (host (set_fs (remap_fs S u g pu pg (fs (host w))) w)) = layout (host w)"
  by (auto simp add: layout_set_fs layout_def remap_fs_def kind_remapped fun_eq_iff
      option.map_comp comp_def)

lemma recursive_chown_flat:
  assumes "valid_id uid" and "valid_id gid"
    and "list_all (path_exists w) (subtree_paths env w path)"
  shows "recursive_chown env path uid gid pu pg w =
           (Inr (), set_fs (remap_fs (link_targets w (subtree_paths env w path)) uid gid pu pg
              (fs (host w))) w)"
proof -
  let ?g = "\<lambda>p. my_chown p uid gid pu pg"
  let ?ps = "walk_paths (os_walk env w path)"
  have ex: "\<forall>p \<in> set (path # ?ps). path_exists w p"
    using assms(3) unfolding list_all_iff set_subtree_paths .
  then obtain q i where qi: "follow (layout (host w)) 40 path = Some q" "fs (host w) q = Some i"
    by (auto simp add: path_exists_iff)
  let ?w1 = "set_fs ((fs (host w))(q \<mapsto> remapped uid gid pu pg i)) w"
  have step: "my_chown path uid gid pu pg w = (Inr (), ?w1)"
    using qi assms(1,2) by (rule my_chown_resolved)
  have lay: "layout (host ?w1) = layout (host w)"
    using qi(2) by (rule layout_remap_step)
  have walk1: "os_walk env ?w1 path = os_walk env w path"
    by (simp add: os_walk_def lay)
  have "recursive_chown env path uid gid pu pg w = seqE (map ?g ?ps) ?w1"
    by (simp add: recursive_chown_def step walk1 walk_loop_flat [where g = ?g]
        split: prod.splits sum.splits)
  also have "\<dots> = seqE (map ?g (path # ?ps)) w"
    by (simp add: step)
  also have "\<dots> = (Inr (), set_fs (remap_fs (link_targets w (path # ?ps)) uid gid pu pg
      (fs (host w))) w)"
    using assms(1,2) ex by (rule seq_my_chown)
  finally show ?thesis
    by (simp add: link_targets_cong [OF set_subtree_paths])
qed

text \<open>
  Claim C8. The remap follows symbolic links: given a path that is a link, \<^verbatim>\<open>stat\<close> and
  \<^verbatim>\<open>os.chown\<close> act on the file the link leads to, and the link itself keeps its owner.
  Take target ids that are valid ids, and a subtree whose root and descendants all lead
  to existing files. The remap returns normally, and the file system after it is the
  one before it with every file that the root or a descendant leads to remapped, and
  every other entry as it was: the uid of such a file becomes the target uid if and only
  if no uid guard was given or the uid equals the guard, and independently the same for
  the gid. Applied a second time, the same remap returns the world it was given: it
  changes no uid and no gid.
\<close>

theorem recursive_chown_remaps:
  assumes "valid_id uid" and "valid_id gid"
    and "list_all (path_exists w) (subtree_paths env w path)"
  shows "recursive_chown env path uid gid prev_uid prev_gid w =
           (Inr (), set_fs (remap_fs (link_targets w (subtree_paths env w path))
              uid gid prev_uid prev_gid (fs (host w))) w)
       \<and> recursive_chown env path uid gid prev_uid prev_gid
           (set_fs (remap_fs (link_targets w (subtree_paths env w path))
              uid gid prev_uid prev_gid (fs (host w))) w) =
           (Inr (), set_fs (remap_fs (link_targets w (subtree_paths env w path))
              uid gid prev_uid prev_gid (fs (host w))) w)"
proof -
  let ?ps = "subtree_paths env w path"
  let ?S = "link_targets w ?ps"
  let ?f' = "remap_fs ?S uid gid prev_uid prev_gid (fs (host w))"
  let ?w' = "set_fs ?f' w"
  have first: "recursive_chown env path uid gid prev_uid prev_gid w = (Inr (), ?w')"
    using assms by (rule recursive_chown_flat)
  have lay: "layout (host ?w') = layout (host w)"
    by (rule layout_remap_fs)
  have ps': "subtree_paths env ?w' path = ?ps"
    using lay by (rule subtree_paths_layout)
  have S': "link_targets ?w' ?ps = ?S"
    using lay by (rule link_targets_layout)
  have ex': "list_all (path_exists ?w') (subtree_paths env ?w' path)"
    using assms(3) unfolding ps' list_all_iff path_exists_iff lay
    by (auto simp add: set_fs_simps remap_fs_def)
  have "recursive_chown env path uid gid prev_uid prev_gid ?w' =
      (Inr (), set_fs (remap_fs (link_targets ?w' (subtree_paths env ?w' path))
         uid gid prev_uid prev_gid (fs (host ?w'))) ?w')"
    using assms(1,2) ex' by (rule recursive_chown_flat)
  moreover have "remap_fs ?S uid gid prev_uid prev_gid ?f' = ?f'"
    by (auto simp add: remap_fs_def remapped_idem fun_eq_iff option.map_comp comp_def)
  ultimately have second: "recursive_chown env path uid gid prev_uid prev_gid ?w' = (Inr (), ?w')"
    by (simp add: ps' S' set_fs_simps)
  from first second show ?thesis by simp
qed


theorem recursive_chown_remaps_witness:
  "fst (recursive_chown srv_env ''/srv'' 99 98 10 10 (sample_world ''compute'' srv_fs)) = Inr ()
   \<and> map (\<lambda>p. map_option st_uid
          (fs (host (snd (recursive_chown srv_env ''/srv'' 99 98 10 10
             (sample_world ''compute'' srv_fs)))) p))
        [''/srv'', ''/srv/a'', ''/srv/a/x'', ''/srv/y'', ''/other'']
      = [Some 99, Some 20, Some 99, Some 30, Some 10]
   \<and> map (\<lambda>p. map_option st_gid
          (fs (host (snd (recursive_chown srv_env ''/srv'' 99 98 10 10
             (sample_world ''compute'' srv_fs)))) p))
        [''/srv'', ''/srv/a'', ''/srv/a/x'', ''/srv/y'', ''/other'']
      = [Some 98, Some 98, Some 30, Some 30, Some 10]"
  using recursive_chown_remaps [where uid = 99 and gid = 98 and prev_uid = 10 and prev_gid = 10
      and env = srv_env and path = "''/srv''" and w = "sample_world ''compute'' srv_fs"]
  by (simp add: valid_id_def path_exists_def resolve_def follow.simps link_targets_def
      subtree_paths_def srv_env_def sample_env_def sample_world_def
      sample_host_def srv_fs_def layout_def remap_fs_def remapped_def set_fs_def path_join_def
      endswith_def dir_def reg_def)

text \<open>
  Claim C8 as it was stated fails for a descendant that is a symbolic link. In the sample
  subtree the link \<^verbatim>\<open>/srv/l\<close> has the uid 10 of the guard, and the remap from uid 10 to
  uid 99 leaves it with uid 10; the file \<^verbatim>\<open>/other\<close> that it leads to is no descendant of
  \<^verbatim>\<open>/srv\<close>, and the remap gives it uid 99.
\<close>

theorem recursive_chown_keeps_link:
  "fst (recursive_chown srv_link_env ''/srv'' 99 98 10 10 (sample_world ''compute'' srv_link_fs))
     = Inr ()
   \<and> map_option st_uid (srv_link_fs ''/srv/l'') = Some 10
   \<and> map_option st_uid (fs (host (snd (recursive_chown srv_link_env ''/srv'' 99 98 10 10
        (sample_world ''compute'' srv_link_fs)))) ''/srv/l'') = Some 10
   \<and> map_option st_uid (srv_link_fs ''/other'') = Some 10
   \<and> map_option st_uid (fs (host (snd (recursive_chown srv_link_env ''/srv'' 99 98 10 10
        (sample_world ''compute'' srv_link_fs)))) ''/other'') = Some 99"
  by (simp add: recursive_chown_flat valid_id_def path_exists_def resolve_def follow.simps
      link_targets_def subtree_paths_def srv_link_env_def srv_link_fs_def sample_env_def
      sample_world_def sample_host_def srv_fs_def layout_def remap_fs_def remapped_def set_fs_def
      path_join_def endswith_def dir_def reg_def)

subsection \<open>Hybrid identity migration\<close>

lemma remap_change_refl: "remap_change u g pu pg x x"
  by (simp add: remap_change_def split: option.splits)

lemma remap_change_trans:
  "remap_change u g pu pg x y \<Longrightarrow> remap_change u g pu pg y z \<Longrightarrow> remap_change u g pu pg x z"
  by (auto simp add: remap_change_def split: option.splits)

lemma remap_change_kind: "remap_change u g pu pg x y \<Longrightarrow> map_option kind y = map_option kind x"
  by (auto simp add: remap_change_def split: option.splits)

lemma chown_rel_refl: "chown_rel S u g pu pg w w"
  unfolding chown_rel_def
  by (rule exI [where x = "fs (host w)"]) (simp add: set_fs_simps remap_change_refl)

lemma chown_rel_layout:
  assumes "chown_rel S u g pu pg w w'"
  shows "layout (host w') = layout (host w)"
proof -
  from assms obtain f' where f': "w' = set_fs f' w"
      "\<forall>q. remap_change u g pu pg (fs (host w) q) (f' q)"
    unfolding chown_rel_def by blast
  have "map_option kind (f' q) = map_option kind (fs (host w) q)" for q
    using f'(2) remap_change_kind by blast
  then show ?thesis
    by (simp add: f'(1) layout_set_fs layout_def fun_eq_iff)
qed

lemma chown_rel_trans:
  assumes "chown_rel S u g pu pg w w1" and "chown_rel T u g pu pg w1 w2"
  shows "chown_rel (S \<union> T) u g pu pg w w2"
proof -
  from assms(1) obtain f1 where f1: "w1 = set_fs f1 w"
      "\<forall>q. remap_change u g pu pg (fs (host w) q) (f1 q)" "\<forall>q. q \<notin> S \<longrightarrow> f1 q = fs (host w) q"
    unfolding chown_rel_def by blast
  from assms(2) obtain f2 where f2: "w2 = set_fs f2 w1"
      "\<forall>q. remap_change u g pu pg (fs (host w1) q) (f2 q)" "\<forall>q. q \<notin> T \<longrightarrow> f2 q = fs (host w1) q"
    unfolding chown_rel_def by blast
  have "w2 = set_fs f2 w" using f1(1) f2(1) by (simp add: set_fs_simps)
  moreover have "\<forall>q. remap_change u g pu pg (fs (host w) q) (f2 q)"
    using f1(1,2) f2(2) by (auto simp add: set_fs_simps intro: remap_change_trans)
  moreover have "\<forall>q. q \<notin> S \<union> T \<longrightarrow> f2 q = fs (host w) q"
    using f1(1,3) f2(3) by (simp add: set_fs_simps)
  ultimately show ?thesis unfolding chown_rel_def by blast
qed

lemma chown_rel_mono: "chown_rel S u g pu pg w w' \<Longrightarrow> S \<subseteq> T \<Longrightarrow> chown_rel T u g pu pg w w'"
  unfolding chown_rel_def by blast

lemma my_chown_rel:
  assumes "my_chown p u g pu pg w = (r, w')"
  shows "chown_rel (link_targets w [p]) u g pu pg w w'"
proof (cases "resolve w p")
  case None
  with assms have "w' = w"
    by (simp add: my_chown_def stat_def act_simps)
  then show ?thesis by (simp add: chown_rel_refl)
next
  case (Some qi)
  obtain q i where qi: "qi = (q, i)" by (cases qi)
  from Some qi have fq: "follow (layout (host w)) 40 p = Some q" "fs (host w) q = Some i"
    by (auto simp add: resolve_def split: option.splits)
  let ?my_uid = "if pu = - 1 \<or> st_uid i = pu then u else - 1"
  let ?my_gid = "if pg = - 1 \<or> st_gid i = pg then g else - 1"
  let ?j = "i\<lparr>st_uid := (if ?my_uid = - 1 \<or> ?my_uid = 4294967295 then st_uid i else ?my_uid),
              st_gid := (if ?my_gid = - 1 \<or> ?my_gid = 4294967295 then st_gid i else ?my_gid)\<rparr>"
  let ?f' = "(fs (host w))(q \<mapsto> ?j)"
  from assms Some qi have "w' = w \<or> w' = set_fs ?f' w"
    by (auto simp add: my_chown_def stat_def os_chown_def act_simps Let_def split: if_splits)
  then show ?thesis
  proof
    assume "w' = w"
    then show ?thesis by (simp add: chown_rel_refl)
  next
    assume w': "w' = set_fs ?f' w"
    have a: "\<forall>x. remap_change u g pu pg (fs (host w) x) (?f' x)"
      using fq(2) by (auto simp add: remap_change_def split: option.splits)
    have b: "\<forall>x. x \<notin> link_targets w [p] \<longrightarrow> ?f' x = fs (host w) x"
      using fq(1) by (auto simp add: link_targets_def)
    from w' a b show ?thesis unfolding chown_rel_def by blast
  qed
qed

lemma seq_my_chown_rel:
  "seqE (map (\<lambda>p. my_chown p u g pu pg) ps) w = (r, w') \<Longrightarrow>
   chown_rel (link_targets w ps) u g pu pg w w'"
proof (induction ps arbitrary: w)
  case Nil
  then show ?case by (simp add: chown_rel_refl)
next
  case (Cons p ps)
  obtain r1 w1 where s1: "my_chown p u g pu pg w = (r1, w1)"
    by (cases "my_chown p u g pu pg w")
  then have rel1: "chown_rel (link_targets w [p]) u g pu pg w w1"
    by (rule my_chown_rel)
  show ?case
  proof (cases r1)
    case (Inl e)
    with s1 Cons.prems have "w' = w1" by simp
    moreover have "link_targets w [p] \<subseteq> link_targets w (p # ps)"
      by (auto simp add: link_targets_def)
    ultimately show ?thesis
      using rel1 by (blast intro: chown_rel_mono)
  next
    case (Inr x)
    with s1 Cons.prems have "seqE (map (\<lambda>p. my_chown p u g pu pg) ps) w1 = (r, w')"
      by simp
    then have "chown_rel (link_targets w1 ps) u g pu pg w1 w'"
      by (rule Cons.IH)
    then have "chown_rel (link_targets w ps) u g pu pg w1 w'"
      by (simp only: link_targets_layout [OF chown_rel_layout [OF rel1]])
    with rel1 have "chown_rel (link_targets w [p] \<union> link_targets w ps) u g pu pg w w'"
      by (rule chown_rel_trans)
    then show ?thesis by (simp add: link_targets_Cons [of w p ps])
  qed
qed

lemma recursive_chown_rel:
  assumes "recursive_chown env path u g pu pg w = (r, w')"
  shows "chown_rel (link_targets w (subtree_paths env w path)) u g pu pg w w'"
proof -
  let ?g = "\<lambda>p. my_chown p u g pu pg"
  obtain r1 w1 where s1: "my_chown path u g pu pg w = (r1, w1)"
    by (cases "my_chown path u g pu pg w")
  then have rel1: "chown_rel (link_targets w [path]) u g pu pg w w1"
    by (rule my_chown_rel)
  have walk1: "os_walk env w1 path = os_walk env w path"
    using chown_rel_layout [OF rel1] by (simp add: os_walk_def)
  have flat: "seqE (map (\<lambda>(root, dirs, files).
           seqE [
             seqE (map (\<lambda>directory. my_chown (path_join root directory) u g pu pg) dirs),
             seqE (map (\<lambda>file. my_chown (path_join root file) u g pu pg) files)])
         (os_walk env w1 path)) w1 = seqE (map ?g (walk_paths (os_walk env w1 path))) w1"
    by (rule walk_loop_flat [where g = ?g])
  have "recursive_chown env path u g pu pg w = seqE (map ?g (path # walk_paths (os_walk env w path))) w"
    unfolding recursive_chown_def
    by (cases r1) (simp_all add: s1 flat, simp add: walk1 split: prod.splits sum.splits)
  then have "seqE (map ?g (path # walk_paths (os_walk env w path))) w = (r, w')"
    using assms by simp
  then have "chown_rel (link_targets w (path # walk_paths (os_walk env w path))) u g pu pg w w'"
    by (rule seq_my_chown_rel)
  then show ?thesis
    by (simp add: link_targets_cong [OF set_subtree_paths])
qed

lemma remap_change_guarded:
  "pu \<noteq> - 1 \<Longrightarrow> pg \<noteq> - 1 \<Longrightarrow> remap_change u g pu pg x y = guarded_change pu pg u g x y"
  by (simp add: remap_change_def guarded_change_def split: option.splits)

lemma guarded_change_refl: "guarded_change cu cg u g x x"
  by (simp add: guarded_change_def split: option.splits)

lemma seqE_rel:
  assumes step: "\<And>a w r w'. a \<in> set xs \<Longrightarrow> a w = (r, w') \<Longrightarrow> R w w'"
    and refl: "\<And>w. R w w"
    and trans: "\<And>x y z. R x y \<Longrightarrow> R y z \<Longrightarrow> R x z"
  shows "seqE xs w = (r, w') \<Longrightarrow> R w w'"
  using step
proof (induction xs arbitrary: w)
  case Nil
  then show ?case by (simp add: refl)
next
  case (Cons a xs)
  obtain r1 w1 where a: "a w = (r1, w1)" by (cases "a w")
  have r1: "R w w1" using Cons.prems(2) [of a w r1 w1] a by simp
  show ?case
  proof (cases r1)
    case (Inl e)
    with a Cons.prems(1) have "w' = w1" by simp
    with r1 show ?thesis by simp
  next
    case (Inr u)
    with a Cons.prems(1) have "seqE xs w1 = (r, w')" by simp
    then have "R w1 w'"
      using Cons.prems(2) by (intro Cons.IH) auto
    with r1 show ?thesis by (rule trans)
  qed
qed

lemma chown_rel_UNIV_trans:
  "chown_rel UNIV u g pu pg x y \<Longrightarrow> chown_rel UNIV u g pu pg y z \<Longrightarrow> chown_rel UNIV u g pu pg x z"
  using chown_rel_trans [of UNIV u g pu pg x y UNIV z] by simp

lemma recursive_chown_rel_UNIV:
  "recursive_chown env path u g pu pg w = (r, w') \<Longrightarrow> chown_rel UNIV u g pu pg w w'"
  using recursive_chown_rel [of env path u g pu pg w r w'] chown_rel_mono by blast

lemma remap_slurm_dirs_frame:
  assumes "cu \<noteq> - 1" and "cg \<noteq> - 1"
    and res: "remap_slurm_dirs env u g cu cg w = (r, w')"
  shows "\<exists>f'. w' = set_fs f' w
       \<and> (\<forall>q. q \<in> link_targets w (subtree_paths env w (slurmdirs_home env))
              \<or> guarded_change cu cg u g (fs (host w) q) (f' q))"
proof -
  let ?H = "link_targets w (subtree_paths env w (slurmdirs_home env))"
  let ?rest = "[recursive_chown env (slurmdirs_etc env) u g cu cg,
       (\<lambda>w. recursive_chown env (slurm_log_dir (cfg (lkp w))) u g cu cg w),
       recursive_chown env (dirs_slurm env) u g cu cg]"
  obtain r1 w1 where s1: "recursive_chown env (slurmdirs_home env) u g (- 1) (- 1) w = (r1, w1)"
    by (cases "recursive_chown env (slurmdirs_home env) u g (- 1) (- 1) w")
  then have "chown_rel ?H u g (- 1) (- 1) w w1"
    by (rule recursive_chown_rel)
  then obtain f1 where f1: "w1 = set_fs f1 w" "\<forall>q. q \<notin> ?H \<longrightarrow> f1 q = fs (host w) q"
    unfolding chown_rel_def by blast
  have rest: "chown_rel UNIV u g cu cg w1 w2" if "seqE ?rest w1 = (r2, w2)" for r2 w2
    using _ _ _ that
  proof (rule seqE_rel [where R = "chown_rel UNIV u g cu cg"])
    fix a w r w'
    assume "a \<in> set ?rest" and "a w = (r, w')"
    then show "chown_rel UNIV u g cu cg w w'"
      by (auto dest: recursive_chown_rel_UNIV)
  next
    fix w show "chown_rel UNIV u g cu cg w w" by (rule chown_rel_refl)
  next
    fix x y z
    assume "chown_rel UNIV u g cu cg x y" and "chown_rel UNIV u g cu cg y z"
    then show "chown_rel UNIV u g cu cg x z" by (rule chown_rel_UNIV_trans)
  qed
  have "chown_rel UNIV u g cu cg w1 w'"
  proof (cases r1)
    case (Inl e)
    with res s1 have "w' = w1" by (simp add: remap_slurm_dirs_def)
    then show ?thesis by (simp add: chown_rel_refl)
  next
    case (Inr x)
    with res s1 have "seqE ?rest w1 = (r, w')" by (simp add: remap_slurm_dirs_def)
    then show ?thesis by (rule rest)
  qed
  then obtain f' where f': "w' = set_fs f' w1"
      "\<forall>q. remap_change u g cu cg (fs (host w1) q) (f' q)"
    unfolding chown_rel_def by blast
  have "w' = set_fs f' w" using f1(1) f'(1) by (simp add: set_fs_simps)
  moreover have "q \<in> ?H \<or> guarded_change cu cg u g (fs (host w) q) (f' q)" for q
  proof (cases "q \<in> ?H")
    case True
    then show ?thesis by simp
  next
    case False
    with f1 have "fs (host w1) q = fs (host w) q" by (simp add: set_fs_simps)
    with f'(2) have "remap_change u g cu cg (fs (host w) q) (f' q)" by metis
    with assms(1,2) show ?thesis by (simp add: remap_change_guarded)
  qed
  ultimately show ?thesis by blast
qed


lemma remap_slurm_dirs_home:
  assumes "valid_id u" and "valid_id g"
    and ex: "list_all (path_exists w) (subtree_paths env w (slurmdirs_home env))"
    and res: "remap_slurm_dirs env u g cu cg w = (r, w')"
  shows "\<forall>q \<in> link_targets w (subtree_paths env w (slurmdirs_home env)).
           \<exists>j. fs (host w') q = Some j \<and> st_uid j = u \<and> st_gid j = g"
proof
  fix q
  let ?ps = "subtree_paths env w (slurmdirs_home env)"
  let ?H = "link_targets w ?ps"
  let ?w1 = "set_fs (remap_fs ?H u g (- 1) (- 1) (fs (host w))) w"
  let ?rest = "[recursive_chown env (slurmdirs_etc env) u g cu cg,
       (\<lambda>w. recursive_chown env (slurm_log_dir (cfg (lkp w))) u g cu cg w),
       recursive_chown env (dirs_slurm env) u g cu cg]"
  assume q: "q \<in> ?H"
  then obtain p where p: "p \<in> set ?ps" "follow (layout (host w)) 40 p = Some q"
    by (auto simp add: link_targets_def)
  with ex obtain i where i: "fs (host w) q = Some i"
    by (auto simp add: list_all_iff path_exists_iff)
  have home: "recursive_chown env (slurmdirs_home env) u g (- 1) (- 1) w = (Inr (), ?w1)"
    using assms(1,2) ex by (rule recursive_chown_flat)
  have q1: "fs (host ?w1) q = Some (remapped u g (- 1) (- 1) i)"
    using q i by (simp add: set_fs_simps remap_fs_def)
  from res home have "seqE ?rest ?w1 = (r, w')"
    by (simp add: remap_slurm_dirs_def)
  with _ _ _ have "chown_rel UNIV u g cu cg ?w1 w'"
  proof (rule seqE_rel [where R = "chown_rel UNIV u g cu cg"])
    fix a w r w'
    assume "a \<in> set ?rest" and "a w = (r, w')"
    then show "chown_rel UNIV u g cu cg w w'"
      by (auto dest: recursive_chown_rel_UNIV)
  next
    fix w show "chown_rel UNIV u g cu cg w w" by (rule chown_rel_refl)
  next
    fix x y z
    assume "chown_rel UNIV u g cu cg x y" and "chown_rel UNIV u g cu cg y z"
    then show "chown_rel UNIV u g cu cg x z" by (rule chown_rel_UNIV_trans)
  qed
  then obtain f' where f': "w' = set_fs f' ?w1"
      "\<forall>x. remap_change u g cu cg (fs (host ?w1) x) (f' x)"
    unfolding chown_rel_def by blast
  from f'(2) have "remap_change u g cu cg (fs (host ?w1) q) (f' q)" by blast
  then have "remap_change u g cu cg (Some (remapped u g (- 1) (- 1) i)) (f' q)"
    by (simp only: q1)
  then obtain j where "f' q = Some j" "st_uid j = u" "st_gid j = g"
    by (auto simp add: remap_change_def remapped_def split: option.splits)
  then show "\<exists>j. fs (host w') q = Some j \<and> st_uid j = u \<and> st_gid j = g"
    by (simp add: f'(1) set_fs_simps)
qed

lemma after_run_append: "after_run env (cs @ ds) w = after_run env ds (after_run env cs w)"
  by (induction cs arbitrary: w) simp_all

lemma after_run_frame: "lkp (after_run env cs w) = lkp w \<and> logs (after_run env cs w) = logs w
    \<and> fetches (after_run env cs w) = fetches w"
  by (induction cs arbitrary: w) simp_all

lemma trace_after_run: "\<exists>evs. trace (after_run env cs w) = trace w @ evs"
proof (induction cs arbitrary: w)
  case Nil
  show ?case by simp
next
  case (Cons c cs)
  let ?w1 = "w\<lparr>host := snd (exec env w c None False),
                 trace := trace w @ [Ran c (fst (exec env w c None False))]\<rparr>"
  from Cons.IH [of ?w1] obtain evs where "trace (after_run env cs ?w1) = trace ?w1 @ evs" ..
  then have "trace (after_run env (c # cs) w)
      = trace w @ (Ran c (fst (exec env w c None False)) # evs)"
    by simp
  then show ?case ..
qed

lemma run_after_run:
  assumes "run env c None chk False w = (res, w1)"
  shows "w1 = after_run env [c] w"
  using assms
  by (auto simp add: run_def Let_def split: prod.splits outcome.splits if_splits)

lemma run_succeeded:
  assumes "run env c None chk False w = (Inr cp, w1)" and "returncode cp = 0"
  shows "trace w1 = trace w @ [Ran c (fst (exec env w c None False))]
       \<and> succeeded (Ran c (fst (exec env w c None False)))"
  using assms
  by (auto simp add: run_def Let_def split: prod.splits outcome.splits if_splits)

lemma change_uid_slurm_cases:
  assumes res: "change_uid_slurm env need cur_gid gid w1 = (r, w')"
    and uid: "uid = slurm_uid (hybrid_conf (cfg (lkp w1)))"
    and um: "um = ''usermod -u '' @ str_int uid @ '' slurm''"
  shows "(\<exists>cs. set cs \<subseteq> {um} \<and> w' = (after_run env cs w1)\<lparr>logs := logs w'\<rparr>)
       \<or> (\<exists>cur_uid. passwd (host w1) ''slurm'' = Some cur_uid
            \<and> (need \<or> cur_uid \<noteq> uid)
            \<and> list_all succeeded
                 (drop (length (trace w1)) (trace (after_run env (if cur_uid = uid then [] else [um]) w1)))
            \<and> remap_slurm_dirs env uid gid cur_uid cur_gid
                 (after_run env (if cur_uid = uid then [] else [um]) w1) = (r, w'))"
proof (cases "passwd (host w1) ''slurm''")
  case None
  with res have "w' = w1"
    by (simp add: change_uid_slurm_def getpwnam_def act_simps)
  then have "set [] \<subseteq> {um} \<and> w' = (after_run env [] w1)\<lparr>logs := logs w'\<rparr>" by simp
  then show ?thesis by blast
next
  case (Some cur_uid)
  show ?thesis
  proof (cases "cur_uid = uid")
    case True
    show ?thesis
    proof (cases need)
      case True
      with \<open>cur_uid = uid\<close> res Some uid
      have "remap_slurm_dirs env uid gid cur_uid cur_gid w1 = (r, w')"
        by (simp add: change_uid_slurm_def getpwnam_def act_simps Let_def)
      with True \<open>cur_uid = uid\<close> Some show ?thesis by simp
    next
      case False
      with \<open>cur_uid = uid\<close> res Some uid have "w' = w1"
        by (simp add: change_uid_slurm_def getpwnam_def act_simps Let_def)
      then have "set [] \<subseteq> {um} \<and> w' = (after_run env [] w1)\<lparr>logs := logs w'\<rparr>" by simp
      then show ?thesis by blast
    qed
  next
    case False
    obtain res1 w2 where run1: "run env um None (check_default env) False w1 = (res1, w2)"
      by (cases "run env um None (check_default env) False w1")
    then have w2: "w2 = after_run env [um] w1" by (rule run_after_run)
    have res': "bindE (run env um None (check_default env) False)
         (\<lambda>urc. if returncode urc \<noteq> 0 then
                   log_at ERROR (''Cannot change the uid of slurm rc='' @ str_int (returncode urc)
                     @ '' stdout='' @ stdout urc @ '' stderr='' @ stderr urc)
                 else whenE True (remap_slurm_dirs env uid gid cur_uid cur_gid)) w1 = (r, w')"
      using False res Some unfolding uid um
      by (simp add: change_uid_slurm_def getpwnam_def bindE_def Let_def)
    have none: ?thesis if "w' = w2\<lparr>logs := logs w'\<rparr>"
    proof -
      from that w2 have "set [um] \<subseteq> {um} \<and> w' = (after_run env [um] w1)\<lparr>logs := logs w'\<rparr>" by simp
      then show ?thesis by blast
    qed
    show ?thesis
    proof (cases res1)
      case (Inl e)
      with res' run1 have "w' = w2" by (simp add: bindE_def)
      then show ?thesis by (intro none) simp
    next
      case (Inr cp)
      show ?thesis
      proof (cases "returncode cp = 0")
        case False
        with res' run1 Inr have "w' = w2\<lparr>logs := logs w'\<rparr>"
          by (auto simp add: bindE_def log_at_def)
        then show ?thesis by (rule none)
      next
        case True
        with res' run1 Inr have "remap_slurm_dirs env uid gid cur_uid cur_gid w2 = (r, w')"
          by (simp add: bindE_def whenE_def)
        moreover from run_succeeded [OF run1 [unfolded Inr] True]
        have "list_all succeeded (drop (length (trace w1)) (trace w2))"
          by simp
        ultimately show ?thesis
          using Some False w2 by simp
      qed
    qed
  qed
qed


lemma drop_trace_after_run:
  assumes "trace w1 = trace w @ evs"
  shows "drop (length (trace w)) (trace (after_run env cs w1))
       = evs @ drop (length (trace w1)) (trace (after_run env cs w1))"
proof -
  obtain evs' where "trace (after_run env cs w1) = trace w1 @ evs'"
    using trace_after_run by blast
  with assms show ?thesis by simp
qed

lemma hybrid_env_quiet: "host (after_run hybrid_env cs w) = host w"
  by (induction cs arbitrary: w) (simp_all add: hybrid_env_def sample_env_def)

lemma hybrid_conf_reowned:
  "map_option st_uid (fs (host (snd (change_uid_gid_slurm hybrid_env
        (sample_world ''compute'' hybrid_fs)))) ''/usr/local/etc/slurm/slurm.conf'') = Some 99"
  by (simp add: change_uid_gid_slurm_def change_uid_slurm_def getgrnam_def getpwnam_def run_def
      hybrid_env_def hybrid_fs_def sample_defs act_simps Let_def remap_slurm_dirs_def
      recursive_chown_flat valid_id_def path_exists_def resolve_def follow.simps link_targets_def
      subtree_paths_def layout_def remap_fs_def
      remapped_def set_fs_def path_join_def endswith_def)

text \<open>
  Claim C3. Let the migration of the identity \<^verbatim>\<open>slurm\<close> to the uid and gid of the
  configuration end in world \<open>w'\<close>. Then one of two things happened. Either the migration
  did nothing but run commands: \<open>w'\<close> is the world after some of the two commands
  \<^verbatim>\<open>groupmod\<close> and \<^verbatim>\<open>usermod\<close> were run, with log records added and nothing else changed.
  Or a rename was performed: the gid or the uid of \<^verbatim>\<open>slurm\<close> differed from its target,
  every command needed for that was run and came to its end with status 0, and after
  them, in world \<open>w0\<close>, the four remaps ran: home, configuration, logs and resource root,
  in this order, symbolic links followed. In that case, where the previous ids of
  \<^verbatim>\<open>slurm\<close> are ids, every entry of the file system is a file that a path of the home
  subtree leads to, or it changed at most under the guard of the previous ids, so that an
  entry of an unrelated owner is as it was. And where the target ids are valid ids and
  every path of the home subtree leads to an existing file, every file that such a path
  leads to has the target uid and gid afterwards, whoever owned it before.
\<close>

theorem change_uid_gid_slurm_remaps:
  assumes res: "change_uid_gid_slurm env w = (r, w')"
    and uid: "uid = slurm_uid (hybrid_conf (cfg (lkp w)))"
    and gid: "gid = slurm_gid (hybrid_conf (cfg (lkp w)))"
    and gm: "gm = ''groupmod -g '' @ str_int gid @ '' slurm''"
    and um: "um = ''usermod -u '' @ str_int uid @ '' slurm''"
  shows "(\<exists>cs. set cs \<subseteq> {gm, um} \<and> w' = (after_run env cs w)\<lparr>logs := logs w'\<rparr>)
       \<or> (\<exists>cur_gid cur_uid w0.
            grp (host w) ''slurm'' = Some cur_gid
          \<and> passwd (host (after_run env (if cur_gid = gid then [] else [gm]) w)) ''slurm''
              = Some cur_uid
          \<and> (cur_gid \<noteq> gid \<or> cur_uid \<noteq> uid)
          \<and> w0 = after_run env ((if cur_gid = gid then [] else [gm])
                    @ (if cur_uid = uid then [] else [um])) w
          \<and> list_all succeeded (drop (length (trace w)) (trace w0))
          \<and> remap_slurm_dirs env uid gid cur_uid cur_gid w0 = (r, w')
          \<and> (0 \<le> cur_uid \<and> 0 \<le> cur_gid \<longrightarrow>
               (\<forall>q. q \<in> link_targets w0 (subtree_paths env w0 (slurmdirs_home env))
                  \<or> guarded_change cur_uid cur_gid uid gid (fs (host w0) q) (fs (host w') q)))
          \<and> (valid_id uid \<and> valid_id gid
               \<and> list_all (path_exists w0) (subtree_paths env w0 (slurmdirs_home env)) \<longrightarrow>
               (\<forall>q \<in> link_targets w0 (subtree_paths env w0 (slurmdirs_home env)).
                  \<exists>j. fs (host w') q = Some j \<and> st_uid j = uid \<and> st_gid j = gid)))"
proof (cases "grp (host w) ''slurm''")
  case None
  with res have "w' = w"
    by (simp add: change_uid_gid_slurm_def getgrnam_def act_simps)
  then have "set [] \<subseteq> {gm, um} \<and> w' = (after_run env [] w)\<lparr>logs := logs w'\<rparr>" by simp
  then show ?thesis by blast
next
  case (Some cur_gid)
  let ?pre = "if cur_gid = gid then [] else [gm]"
  let ?w1 = "after_run env ?pre w"
  have lkp1: "lkp ?w1 = lkp w" by (simp add: after_run_frame)
  have mid: "(\<exists>cs. set cs \<subseteq> {gm, um} \<and> w' = (after_run env cs w)\<lparr>logs := logs w'\<rparr>)
      \<or> (change_uid_slurm env (cur_gid \<noteq> gid) cur_gid gid ?w1 = (r, w')
          \<and> (\<exists>evs. trace ?w1 = trace w @ evs \<and> list_all succeeded evs))"
  proof (cases "cur_gid = gid")
    case True
    with res Some gid have "change_uid_slurm env False cur_gid gid w = (r, w')"
      by (simp add: change_uid_gid_slurm_def getgrnam_def act_simps Let_def)
    with True show ?thesis by simp
  next
    case False
    obtain res1 w2 where run1: "run env gm None (check_default env) False w = (res1, w2)"
      by (cases "run env gm None (check_default env) False w")
    then have w2: "w2 = after_run env [gm] w" by (rule run_after_run)
    have res': "bindE (run env gm None (check_default env) False)
         (\<lambda>grc. if returncode grc \<noteq> 0 then
                   log_at ERROR (''Cannot change the gid of slurm rc='' @ str_int (returncode grc)
                     @ '' stdout='' @ stdout grc @ '' stderr='' @ stderr grc)
                 else change_uid_slurm env True cur_gid gid) w = (r, w')"
      using False res Some unfolding gid gm
      by (simp add: change_uid_gid_slurm_def getgrnam_def bindE_def Let_def)
    have none: ?thesis if "w' = w2\<lparr>logs := logs w'\<rparr>"
    proof -
      from that w2 have "set [gm] \<subseteq> {gm, um} \<and> w' = (after_run env [gm] w)\<lparr>logs := logs w'\<rparr>"
        by simp
      then show ?thesis by blast
    qed
    show ?thesis
    proof (cases res1)
      case (Inl e)
      with res' run1 have "w' = w2" by (simp add: bindE_def)
      then show ?thesis by (intro none) simp
    next
      case (Inr cp)
      show ?thesis
      proof (cases "returncode cp = 0")
        case False
        with res' run1 Inr have "w' = w2\<lparr>logs := logs w'\<rparr>"
          by (auto simp add: bindE_def log_at_def)
        then show ?thesis by (rule none)
      next
        case True
        with res' run1 Inr have "change_uid_slurm env True cur_gid gid w2 = (r, w')"
          by (simp add: bindE_def)
        moreover from run_succeeded [OF run1 [unfolded Inr] True]
        have "\<exists>evs. trace w2 = trace w @ evs \<and> list_all succeeded evs"
          by simp
        ultimately show ?thesis
          using \<open>cur_gid \<noteq> gid\<close> w2 by simp
      qed
    qed
  qed
  then show ?thesis
  proof
    assume "\<exists>cs. set cs \<subseteq> {gm, um} \<and> w' = (after_run env cs w)\<lparr>logs := logs w'\<rparr>"
    then show ?thesis ..
  next
    assume "change_uid_slurm env (cur_gid \<noteq> gid) cur_gid gid ?w1 = (r, w')
          \<and> (\<exists>evs. trace ?w1 = trace w @ evs \<and> list_all succeeded evs)"
    then obtain evs where second: "change_uid_slurm env (cur_gid \<noteq> gid) cur_gid gid ?w1 = (r, w')"
      and evs: "trace ?w1 = trace w @ evs" "list_all succeeded evs"
      by blast
    have uid1: "uid = slurm_uid (hybrid_conf (cfg (lkp ?w1)))"
      using uid by (simp only: lkp1)
    from change_uid_slurm_cases [OF second uid1 um]
    show ?thesis
    proof
      assume "\<exists>cs. set cs \<subseteq> {um} \<and> w' = (after_run env cs ?w1)\<lparr>logs := logs w'\<rparr>"
      then obtain cs where cs: "set cs \<subseteq> {um}" "w' = (after_run env cs ?w1)\<lparr>logs := logs w'\<rparr>"
        by blast
      have "set (?pre @ cs) \<subseteq> {gm, um}"
        using cs(1) by auto
      moreover have "w' = (after_run env (?pre @ cs) w)\<lparr>logs := logs w'\<rparr>"
        using cs(2) by (simp only: after_run_append)
      ultimately show ?thesis by blast
    next
      assume "\<exists>cur_uid. passwd (host ?w1) ''slurm'' = Some cur_uid
            \<and> ((cur_gid \<noteq> gid) \<or> cur_uid \<noteq> uid)
            \<and> list_all succeeded
                 (drop (length (trace ?w1)) (trace (after_run env (if cur_uid = uid then [] else [um]) ?w1)))
            \<and> remap_slurm_dirs env uid gid cur_uid cur_gid
                 (after_run env (if cur_uid = uid then [] else [um]) ?w1) = (r, w')"
      then obtain cur_uid where cu: "passwd (host ?w1) ''slurm'' = Some cur_uid"
          "cur_gid \<noteq> gid \<or> cur_uid \<noteq> uid"
          "list_all succeeded
             (drop (length (trace ?w1)) (trace (after_run env (if cur_uid = uid then [] else [um]) ?w1)))"
          "remap_slurm_dirs env uid gid cur_uid cur_gid
             (after_run env (if cur_uid = uid then [] else [um]) ?w1) = (r, w')"
        by blast
      let ?post = "if cur_uid = uid then [] else [um]"
      let ?w0 = "after_run env (?pre @ ?post) w"
      have w0: "after_run env ?post ?w1 = ?w0"
        by (simp only: after_run_append)
      have ok: "list_all succeeded (drop (length (trace w)) (trace ?w0))"
        using drop_trace_after_run [OF evs(1), of env ?post] evs(2) cu(3)
        by (simp only: w0 list_all_append)
      have remap: "remap_slurm_dirs env uid gid cur_uid cur_gid ?w0 = (r, w')"
        using cu(4) by (simp only: w0)
      have frame: "\<forall>q. q \<in> link_targets ?w0 (subtree_paths env ?w0 (slurmdirs_home env))
                  \<or> guarded_change cur_uid cur_gid uid gid (fs (host ?w0) q) (fs (host w') q)"
        if "0 \<le> cur_uid \<and> 0 \<le> cur_gid"
      proof -
        from that have "cur_uid \<noteq> - 1" "cur_gid \<noteq> - 1" by auto
        from remap_slurm_dirs_frame [OF this remap] obtain f' where f': "w' = set_fs f' ?w0"
            "\<forall>q. q \<in> link_targets ?w0 (subtree_paths env ?w0 (slurmdirs_home env))
                  \<or> guarded_change cur_uid cur_gid uid gid (fs (host ?w0) q) (f' q)"
          by blast
        have "fs (host w') = f'" by (subst f'(1)) (rule set_fs_simps(1))
        with f'(2) show ?thesis by simp
      qed
      have home: "\<forall>q \<in> link_targets ?w0 (subtree_paths env ?w0 (slurmdirs_home env)).
                  \<exists>j. fs (host w') q = Some j \<and> st_uid j = uid \<and> st_gid j = gid"
        if "valid_id uid \<and> valid_id gid
               \<and> list_all (path_exists ?w0) (subtree_paths env ?w0 (slurmdirs_home env))"
        using that remap by (intro remap_slurm_dirs_home [where cu = cur_uid and cg = cur_gid and r = r]) simp_all
      from Some cu(1,2) ok remap frame home show ?thesis by blast
    qed
  qed
qed

theorem change_uid_gid_slurm_remaps_witness:
  "map_option st_uid (fs (host (snd (change_uid_gid_slurm hybrid_env
        (sample_world ''compute'' hybrid_fs)))) ''/usr/local/etc/slurm/site.conf'') = Some 20
   \<and> map_option st_gid (fs (host (snd (change_uid_gid_slurm hybrid_env
        (sample_world ''compute'' hybrid_fs)))) ''/usr/local/etc/slurm/site.conf'') = Some 20
   \<and> map_option st_uid (fs (host (snd (change_uid_gid_slurm hybrid_env
        (sample_world ''compute'' hybrid_fs)))) ''/var/lib/slurm/notes'') = Some 99
   \<and> map_option st_gid (fs (host (snd (change_uid_gid_slurm hybrid_env
        (sample_world ''compute'' hybrid_fs)))) ''/var/lib/slurm/notes'') = Some 98"
proof -
  let ?W = "sample_world ''compute'' hybrid_fs"
  let ?r = "fst (change_uid_gid_slurm hybrid_env ?W)"
  let ?w' = "snd (change_uid_gid_slurm hybrid_env ?W)"
  let ?home = "subtree_paths hybrid_env ?W (slurmdirs_home hybrid_env)"
  let ?site = "''/usr/local/etc/slurm/site.conf''"
  let ?notes = "''/var/lib/slurm/notes''"
  have res: "change_uid_gid_slurm hybrid_env ?W = (?r, ?w')"
    by simp
  have before: "map_option st_uid (fs (host ?W) ''/usr/local/etc/slurm/slurm.conf'') = Some 10"
    by (simp add: hybrid_fs_def sample_defs)
  have no_cmds_only: "\<not> (\<exists>cs. set cs \<subseteq> {gm, um} \<and> ?w' = (after_run hybrid_env cs ?W)\<lparr>logs := logs ?w'\<rparr>)"
    for gm um
  proof
    assume "\<exists>cs. set cs \<subseteq> {gm, um} \<and> ?w' = (after_run hybrid_env cs ?W)\<lparr>logs := logs ?w'\<rparr>"
    then obtain cs where "?w' = (after_run hybrid_env cs ?W)\<lparr>logs := logs ?w'\<rparr>" by blast
    then have "host ?w' = host ((after_run hybrid_env cs ?W)\<lparr>logs := logs ?w'\<rparr>)" by simp
    then have "host ?w' = host ?W" by (simp add: hybrid_env_quiet)
    then have "map_option st_uid (fs (host ?w') ''/usr/local/etc/slurm/slurm.conf'')
        = map_option st_uid (fs (host ?W) ''/usr/local/etc/slurm/slurm.conf'')"
      by (rule arg_cong)
    then show False
      by (simp only: before hybrid_conf_reowned) simp
  qed
  from change_uid_gid_slurm_remaps [OF res refl refl refl refl] no_cmds_only
  obtain cur_gid cur_uid w0 where
      g: "grp (host ?W) ''slurm'' = Some cur_gid"
    and u: "passwd (host (after_run hybrid_env (if cur_gid = slurm_gid (hybrid_conf (cfg (lkp ?W))) then []
          else [''groupmod -g '' @ str_int (slurm_gid (hybrid_conf (cfg (lkp ?W)))) @ '' slurm'']) ?W))
          ''slurm'' = Some cur_uid"
    and w0: "\<exists>cs. w0 = after_run hybrid_env cs ?W"
    and frame: "0 \<le> cur_uid \<and> 0 \<le> cur_gid \<longrightarrow>
         (\<forall>q. q \<in> link_targets w0 (subtree_paths hybrid_env w0 (slurmdirs_home hybrid_env))
            \<or> guarded_change cur_uid cur_gid (slurm_uid (hybrid_conf (cfg (lkp ?W))))
                 (slurm_gid (hybrid_conf (cfg (lkp ?W)))) (fs (host w0) q) (fs (host ?w') q))"
    and home: "valid_id (slurm_uid (hybrid_conf (cfg (lkp ?W))))
          \<and> valid_id (slurm_gid (hybrid_conf (cfg (lkp ?W))))
          \<and> list_all (path_exists w0) (subtree_paths hybrid_env w0 (slurmdirs_home hybrid_env)) \<longrightarrow>
         (\<forall>q \<in> link_targets w0 (subtree_paths hybrid_env w0 (slurmdirs_home hybrid_env)).
            \<exists>j. fs (host ?w') q = Some j \<and> st_uid j = slurm_uid (hybrid_conf (cfg (lkp ?W)))
               \<and> st_gid j = slurm_gid (hybrid_conf (cfg (lkp ?W))))"
    by blast
  from w0 have h0: "host w0 = host ?W" by (auto simp add: hybrid_env_quiet)
  have cg: "cur_gid = 10" using g by (simp add: sample_defs)
  have cu: "cur_uid = 10" using u by (simp add: hybrid_env_quiet sample_defs)
  have ids: "slurm_uid (hybrid_conf (cfg (lkp ?W))) = 99" "slurm_gid (hybrid_conf (cfg (lkp ?W))) = 98"
    by (simp_all add: sample_defs)
  have paths: "subtree_paths hybrid_env w0 (slurmdirs_home hybrid_env)
      = [''/var/lib/slurm'', ''/var/lib/slurm/notes'']"
    by (simp add: subtree_paths_def hybrid_env_def sample_defs path_join_def endswith_def)
  have targets: "link_targets w0 [''/var/lib/slurm'', ''/var/lib/slurm/notes'']
      = {''/var/lib/slurm'', ''/var/lib/slurm/notes''}"
    by (auto simp add: link_targets_def h0 layout_def hybrid_fs_def sample_defs follow.simps)
  have exist: "list_all (path_exists w0) [''/var/lib/slurm'', ''/var/lib/slurm/notes'']"
    by (simp add: path_exists_def resolve_def h0 layout_def hybrid_fs_def sample_defs follow.simps)
  from frame have "\<forall>q. q \<in> {''/var/lib/slurm'', ''/var/lib/slurm/notes''}
      \<or> guarded_change 10 10 99 98 (fs (host w0) q) (fs (host ?w') q)"
    unfolding cg cu ids paths targets by simp
  then have "?site \<in> {''/var/lib/slurm'', ''/var/lib/slurm/notes''}
      \<or> guarded_change 10 10 99 98 (fs (host w0) ?site) (fs (host ?w') ?site)" ..
  then have "guarded_change 10 10 99 98 (fs (host w0) ?site) (fs (host ?w') ?site)"
    by simp
  moreover have "fs (host w0) ?site = Some (reg ''s'' 20 20)"
    by (simp add: h0 hybrid_fs_def sample_defs)
  ultimately have kept: "map_option st_uid (fs (host ?w') ?site) = Some 20
      \<and> map_option st_gid (fs (host ?w') ?site) = Some 20"
    by (auto simp add: guarded_change_def reg_def split: option.splits)
  from home exist have "\<exists>j. fs (host ?w') ?notes = Some j \<and> st_uid j = 99 \<and> st_gid j = 98"
    unfolding ids paths targets by (simp add: valid_id_def)
  then have reowned: "map_option st_uid (fs (host ?w') ?notes) = Some 99
      \<and> map_option st_gid (fs (host ?w') ?notes) = Some 98"
    by auto
  from kept reowned show ?thesis by simp
qed

text \<open>
  Claim C3 as it was stated fails: the remap of home is not guarded. On the sample host
  the file \<^verbatim>\<open>notes\<close> in the home of \<^verbatim>\<open>slurm\<close> belongs to the unrelated uid 20, and after
  the migration of \<^verbatim>\<open>slurm\<close> from uid 10 to uid 99 it belongs to uid 99.
\<close>

theorem change_uid_gid_slurm_unguarded_home:
  "map_option st_uid (hybrid_fs ''/var/lib/slurm/notes'') = Some 20
   \<and> map_option st_uid (fs (host (snd (change_uid_gid_slurm hybrid_env
        (sample_world ''compute'' hybrid_fs)))) ''/var/lib/slurm/notes'') = Some 99"
  by (simp add: change_uid_gid_slurm_def change_uid_slurm_def getgrnam_def getpwnam_def run_def
      hybrid_env_def hybrid_fs_def sample_defs act_simps Let_def remap_slurm_dirs_def
      recursive_chown_flat valid_id_def path_exists_def resolve_def follow.simps link_targets_def
      subtree_paths_def layout_def remap_fs_def
      remapped_def set_fs_def path_join_def endswith_def)

subsection \<open>Options of the compute daemon\<close>

text \<open>
  Claim C10. When the fetch of the instance attribute \<^verbatim>\<open>slurmd_feature\<close> raises, whatever
  the exception, the value is \<^verbatim>\<open>None\<close> and nothing is raised: the step goes on to write the
  defaults file of \<^verbatim>\<open>slurmd\<close>, with the option \<^verbatim>\<open>--conf-server\<close> alone, neither
  \<^verbatim>\<open>--conf="Feature=..."\<close> nor \<^verbatim>\<open>-Z\<close>. It does what it does in an environment where the
  attribute is unset and the fetch returns \<^verbatim>\<open>None\<close>.
\<close>

theorem slurmd_feature_error_is_unset:
  assumes "instance_metadata env ''attributes/slurmd_feature'' w = (Inl e, w')"
  shows "fetch_slurmd_feature env w = (Inr None, w')
       \<and> setup_slurmd_options env w =
           update_system_config ''slurmd''
             (''SLURMD_OPTIONS='' @ [sq] @ ''--conf-server='' @ [dq] @ slurmctld_host (lkp w')
                @ '':'' @ control_host_port (lkp w') @ [dq] @ [sq]) w'
       \<and> (\<forall>env2. instance_metadata env2 ''attributes/slurmd_feature'' w = (Inr None, w')
             \<longrightarrow> setup_slurmd_options env w = setup_slurmd_options env2 w)"
  using assms
  by (simp add: fetch_slurmd_feature_def setup_slurmd_options_def slurmd_options_def bindE_def)

theorem slurmd_feature_error_is_unset_witness:
  "fst (setup_slurmd_options sample_env
          (sample_world ''compute'' [''/etc/sysconfig'' \<mapsto> dir 0 0])) = Inr ()
   \<and> map_option kind (fs (host (snd (setup_slurmd_options sample_env
          (sample_world ''compute'' [''/etc/sysconfig'' \<mapsto> dir 0 0])))) ''/etc/sysconfig/slurmd'')
       = Some (Reg (''SLURMD_OPTIONS='' @ [sq] @ ''--conf-server='' @ [dq] @ ''ctl:6818'' @ [dq] @ [sq]))"
  using slurmd_feature_error_is_unset [of sample_env
      "sample_world ''compute'' [''/etc/sysconfig'' \<mapsto> dir 0 0]"
      "Exception ''MetadataNotFoundError''"
      "sample_world ''compute'' [''/etc/sysconfig'' \<mapsto> dir 0 0]"]
  by (simp add: sample_defs raiseE_def update_system_config_def path_exists_def resolve_def
      follow.simps layout_def write_text_def set_fs_def path_join_def endswith_def
      slurmctld_host_def Let_def)

subsection \<open>Symbolic links\<close>

text \<open>
  Claim C9 against the code. \<^verbatim>\<open>Path.exists()\<close> follows the link, so a link whose target
  is missing does not count as existing: it is not removed, and creating the new link
  in its place raises \<^verbatim>\<open>FileExistsError\<close>. Here \<^verbatim>\<open>/etc/slurm\<close> is such a link, left
  behind by an older installation; both the loop body and \<^verbatim>\<open>configure_dirs\<close> as a
  whole raise.
\<close>

theorem reconcile_symlink_dangling:
  "reconcile_symlink ''/etc/slurm'' ''/usr/local/etc/slurm''
     (sample_world ''controller'' [''/etc/slurm'' \<mapsto> lnk ''/opt/slurm-old/etc''])
   = (Inl (OSError FileExistsError),
      sample_world ''controller'' [''/etc/slurm'' \<mapsto> lnk ''/opt/slurm-old/etc''])
   \<and> fst (configure_dirs sample_env
        (sample_world ''controller'' [''/etc/slurm'' \<mapsto> lnk ''/opt/slurm-old/etc'']))
     = Inl (OSError FileExistsError)"
  by (simp add: reconcile_symlink_def configure_dirs_def sample_defs act_simps path_exists_def
      is_symlink_def resolve_def follow.simps layout_def symlink_to_def unlink_def lnk_def)

subsection \<open>Mount table\<close>

text \<open>
  Every line that \<^verbatim>\<open>readlines\<close> returns from a text that ends with a newline ends with
  a newline itself, so a string without newline is never among them.
\<close>

lemma readlines_Nil_iff: "readlines content = [] \<longleftrightarrow> content = []"
  by (cases content) (auto split: list.splits)

lemma readlines_whole_lines:
  "content = [] \<or> last content = nl \<Longrightarrow> l \<in> set (readlines content) \<Longrightarrow> l \<noteq> [] \<and> last l = nl"
proof (induction content arbitrary: l rule: readlines.induct)
  case 1
  then show ?case by simp
next
  case (2 c cs)
  show ?case
  proof (cases "c = nl")
    case True
    show ?thesis
    proof (cases "cs = []")
      case True
      with \<open>c = nl\<close> "2.prems" show ?thesis by simp
    next
      case False
      with "2.prems"(1) have "cs = [] \<or> last cs = nl" by simp
      with "2.IH"(1) [OF True] have "l' \<in> set (readlines cs) \<Longrightarrow> l' \<noteq> [] \<and> last l' = nl" for l'
        by blast
      with True "2.prems"(2) show ?thesis by auto
    qed
  next
    case False
    with "2.prems"(1) have cs: "cs \<noteq> []" "last cs = nl" by (auto split: if_splits)
    then have ih: "l' \<in> set (readlines cs) \<Longrightarrow> l' \<noteq> [] \<and> last l' = nl" for l'
      using "2.IH"(2) [OF False] by blast
    from cs(1) obtain l0 ls where r: "readlines cs = l0 # ls"
      by (cases "readlines cs") (simp_all add: readlines_Nil_iff)
    from ih [of l0] r have l0: "l0 \<noteq> []" "last l0 = nl" by simp_all
    from False r "2.prems"(2) have "l = c # l0 \<or> l \<in> set ls" by simp
    then show ?thesis
    proof
      assume "l = c # l0"
      with l0 show ?thesis by simp
    next
      assume "l \<in> set ls"
      with r ih [of l] show ?thesis by simp
    qed
  qed
qed

lemma entry_not_among_lines:
  assumes "nl \<notin> set entry" and "content = [] \<or> last content = nl"
  shows "entry \<notin> set (readlines content)"
proof
  assume "entry \<in> set (readlines content)"
  with assms(2) have "entry \<noteq> [] \<and> last entry = nl" by (rule readlines_whole_lines)
  then have "nl \<in> set entry" by (metis last_in_set)
  with assms(1) show False by simp
qed


text \<open>
  Claim C1 against the code. The check looks for the entry (device, mount point and, for
  the state disk, the type) among the lines of the table as \<^verbatim>\<open>readlines\<close> returns them,
  whole lines with their options and newline, so it never finds it, and every call
  appends. Two calls of either function on a host with an ordinary table leave the line
  twice.
\<close>

theorem mount_twice_duplicates:
  "map_option kind (fs (host (snd (seqE [mount_munge_key_disk sample_env, mount_munge_key_disk sample_env]
       (sample_world ''controller'' fstab_fs)))) ''/etc/fstab'')
     = Some (Reg (text_of_lines [
         ''LABEL=root / ext4 defaults 0 1'',
         ''/var/spool/slurm/munge /etc/munge none bind 0 0'',
         ''/var/spool/slurm/munge /etc/munge none bind 0 0'']))
   \<and> map_option kind (fs (host (snd (seqE [mount_save_state_disk disk_env, mount_save_state_disk disk_env]
       (sample_world ''controller'' fstab_fs)))) ''/etc/fstab'')
     = Some (Reg (text_of_lines [
         ''LABEL=root / ext4 defaults 0 1'',
         ''/dev/disk/by-id/google-state /var/spool/slurm ext4 defaults 0 0'',
         ''/dev/disk/by-id/google-state /var/spool/slurm ext4 defaults 0 0'']))"
  by (simp add: mount_munge_key_disk_def mount_save_state_disk_def disk_env_def fstab_fs_def
      sample_defs act_simps fs_defs run_cmd_def run_def Let_def text_of_lines_def nl_def
      strip_def is_space_def str_opt_def)

subsection \<open>Dispatch on the role\<close>

lemma seqP_append:
  "seqP (xs @ ys) w =
     (case seqP xs w of
        None \<Rightarrow> None
      | Some (Inl e, w') \<Rightarrow> Some (Inl e, w')
      | Some (Inr u, w') \<Rightarrow> seqP ys w')"
  by (induction xs arbitrary: w) (auto split: option.splits prod.splits sum.splits)

lemma get_config_ready:
  "source env bucket (fetches w) = Inr c \<Longrightarrow>
   get_config env bucket w =
     Some (Inr (), w\<lparr>fetches := Suc (fetches w), trace := trace w @ [Fetched],
                      lkp := (if bucket = None then c else c\<lparr>hybrid_setup := True\<rparr>),
                      logs := logs w @ [(INFO, ''Config fetched'')]\<rparr>)"
  by (subst get_config_def, subst get_config_loop.simps) (simp add: get_config_try_ok log_at_def)

lemma write_text_frame:
  "write_text p s w = (r, w') \<Longrightarrow> trace w' = trace w \<and> lkp w' = lkp w \<and> logs w' = logs w"
  by (auto simp add: write_text_def set_fs_def split: option.splits nkind.splits)

lemma run_cmd_frame:
  "run_cmd env cmd t chk sh w = (r, w') \<Longrightarrow>
   ran_cmds (trace w') = ran_cmds (trace w) @ [cmd] \<and> lkp w' = lkp w \<and> logs w' = logs w"
  by (auto simp add: run_cmd_def run_def act_simps ran_cmds_append Let_def
      split: prod.splits outcome.splits sum.splits if_splits)

lemma end_motd_ok:
  assumes "end_motd env True w = (Inr (), w')"
  shows "(\<exists>w2. write_text ''/etc/motd'' MOTD_HEADER w = (Inr (), w2))
       \<and> ran_cmds (trace w') = ran_cmds (trace w)
           @ [''wall -n '' @ [sq] @ ''*** Slurm '' @ instance_role (lkp w) @ '' setup complete ***'' @ [sq]]
           @ (if is_controller (lkp w) then []
              else [''wall -n '' @ [sq] @ text_of_lines [
                  '''',
                  ''/home on the controller was mounted over the existing /home.'',
                  ''Log back in to ensure your home directory is correct.''] @ [sq]])"
proof -
  let ?c1 = "''wall -n '' @ [sq] @ ''*** Slurm '' @ instance_role (lkp w) @ '' setup complete ***'' @ [sq]"
  let ?c2 = "''wall -n '' @ [sq] @ text_of_lines [
                  '''',
                  ''/home on the controller was mounted over the existing /home.'',
                  ''Log back in to ensure your home directory is correct.''] @ [sq]"
  obtain r2 w2 where s2: "write_text ''/etc/motd'' MOTD_HEADER w = (r2, w2)"
    by (cases "write_text ''/etc/motd'' MOTD_HEADER w")
  note f2 = write_text_frame [OF s2]
  obtain r3 w3 where s3: "run_cmd env ?c1 (Some 30) (check_default env) False w2 = (r3, w3)"
    by (cases "run_cmd env ?c1 (Some 30) (check_default env) False w2")
  note f3 = run_cmd_frame [OF s3]
  obtain r4 w4 where s4: "run_cmd env ?c2 (Some 30) (check_default env) False w3 = (r4, w4)"
    by (cases "run_cmd env ?c2 (Some 30) (check_default env) False w3")
  note f4 = run_cmd_frame [OF s4]
  from assms have all: "r2 = Inr () \<and> r3 = Inr ()
      \<and> (if is_controller (lkp w) then w' = w3 else r4 = Inr () \<and> w' = w4)"
    using s2 s3 s4 f2 f3
    by (cases r2; cases r3; cases r4)
       (simp_all add: end_motd_def whenE_def returnE_def split: if_splits)
  with s2 f2 f3 f4 show ?thesis
    by (cases "is_controller (lkp w)") auto
qed

text \<open>
  Claim C2, as amended. Let the role of the acquired configuration be none of controller,
  compute and login, and let the steps of \<^verbatim>\<open>main\<close> before the dispatch (banner,
  configuration, logging agent, directories) have returned, leaving the world \<open>w\<close>. The
  dispatch logs one record, at the fatal level, changes nothing else and does not raise.
  If then the final banner and its broadcast do not fail, \<^verbatim>\<open>main\<close> returns normally (the
  run is complete): the banner has been written, and the commands run after the
  dispatch are the broadcast of "setup complete" and, on a host that is no controller,
  the note about the home directory.
\<close>

theorem unknown_role_completes:
  assumes role: "instance_role (lkp w) \<notin> {''controller'', ''compute'', ''login''}"
    and before: "seqP [
       liftP (start_motd env),
       liftP (log_at INFO ''Starting setup, fetching config''),
       get_config env None,
       liftP (setup_cloud_ops env),
       liftP (configure_dirs env)] w0 = Some (Inr (), w)"
    and after: "end_motd env True
       (w\<lparr>logs := logs w @ [(FATAL, ''Unknown node role: '' @ instance_role (lkp w))]\<rparr>)
       = (Inr (), w')"
  shows "setup_role env w =
           (Inr (), w\<lparr>logs := logs w @ [(FATAL, ''Unknown node role: '' @ instance_role (lkp w))]\<rparr>)
       \<and> main env w0 = Some (Inr (), w')
       \<and> (\<exists>w2. write_text ''/etc/motd'' MOTD_HEADER
             (w\<lparr>logs := logs w @ [(FATAL, ''Unknown node role: '' @ instance_role (lkp w))]\<rparr>)
             = (Inr (), w2))
       \<and> ran_cmds (trace w') = ran_cmds (trace w)
           @ [''wall -n '' @ [sq] @ ''*** Slurm '' @ instance_role (lkp w) @ '' setup complete ***'' @ [sq]]
           @ (if is_controller (lkp w) then []
              else [''wall -n '' @ [sq] @ text_of_lines [
                  '''',
                  ''/home on the controller was mounted over the existing /home.'',
                  ''Log back in to ensure your home directory is correct.''] @ [sq]])"
proof -
  let ?wf = "w\<lparr>logs := logs w @ [(FATAL, ''Unknown node role: '' @ instance_role (lkp w))]\<rparr>"
  have disp: "setup_role env w = (Inr (), ?wf)"
    using role by (simp add: setup_role_def log_at_def Let_def)
  have "main env w0 = seqP ([
       liftP (start_motd env),
       liftP (log_at INFO ''Starting setup, fetching config''),
       get_config env None,
       liftP (setup_cloud_ops env),
       liftP (configure_dirs env)] @ [liftP (setup_role env), liftP (end_motd env True)]) w0"
    by (simp add: main_def)
  also have "\<dots> = seqP [liftP (setup_role env), liftP (end_motd env True)] w"
    by (simp only: seqP_append before option.case prod.case sum.case)
  also have "\<dots> = Some (Inr (), w')"
    by (simp add: liftP_def disp after [simplified])
  finally have m: "main env w0 = Some (Inr (), w')" .
  from end_motd_ok [OF after] disp m show ?thesis by simp
qed

theorem unknown_role_completes_witness:
  "map_option fst (main ready_env (sample_world ''compute'' boot_fs)) = Some (Inr ())
   \<and> map_option (\<lambda>r. ran_cmds (trace (snd r))) (main ready_env (sample_world ''compute'' boot_fs))
       = Some [
           ''wall -n '' @ [sq] @ ''*** Slurm is currently being configured in the background. ***'' @ [sq],
           ''systemctl is-active --quiet google-cloud-ops-agent.service'',
           ''systemctl restart google-cloud-ops-agent.service'',
           ''wall -n '' @ [sq] @ ''*** Slurm gateway setup complete ***'' @ [sq],
           ''wall -n '' @ [sq] @ text_of_lines [
              '''',
              ''/home on the controller was mounted over the existing /home.'',
              ''Log back in to ensure your home directory is correct.''] @ [sq]]"
proof -
  have "\<exists>w. seqP [
       liftP (start_motd ready_env),
       liftP (log_at INFO ''Starting setup, fetching config''),
       get_config ready_env None,
       liftP (setup_cloud_ops ready_env),
       liftP (configure_dirs ready_env)] (sample_world ''compute'' boot_fs) = Some (Inr (), w)
     \<and> instance_role (lkp w) = ''gateway'' \<and> \<not> is_controller (lkp w)
     \<and> ran_cmds (trace w) = [
           ''wall -n '' @ [sq] @ ''*** Slurm is currently being configured in the background. ***'' @ [sq],
           ''systemctl is-active --quiet google-cloud-ops-agent.service'',
           ''systemctl restart google-cloud-ops-agent.service'']
     \<and> fst (end_motd ready_env True
          (w\<lparr>logs := logs w @ [(FATAL, ''Unknown node role: '' @ instance_role (lkp w))]\<rparr>)) = Inr ()"
    by (simp add: liftP_def start_motd_def get_config_ready setup_cloud_ops_def configure_dirs_def
        reconcile_symlink_def copyfile_def chmod_def unlink_def symlink_to_def end_motd_def
        ready_env_def boot_fs_def sample_defs act_simps fs_defs run_cmd_def run_def Let_def
        path_join_def endswith_def)
  then obtain w where before: "seqP [
       liftP (start_motd ready_env),
       liftP (log_at INFO ''Starting setup, fetching config''),
       get_config ready_env None,
       liftP (setup_cloud_ops ready_env),
       liftP (configure_dirs ready_env)] (sample_world ''compute'' boot_fs) = Some (Inr (), w)"
    and role: "instance_role (lkp w) = ''gateway''" and nc: "\<not> is_controller (lkp w)"
    and tr: "ran_cmds (trace w) = [
           ''wall -n '' @ [sq] @ ''*** Slurm is currently being configured in the background. ***'' @ [sq],
           ''systemctl is-active --quiet google-cloud-ops-agent.service'',
           ''systemctl restart google-cloud-ops-agent.service'']"
    and e: "fst (end_motd ready_env True
          (w\<lparr>logs := logs w @ [(FATAL, ''Unknown node role: '' @ instance_role (lkp w))]\<rparr>)) = Inr ()"
    by blast
  obtain w' where after: "end_motd ready_env True
          (w\<lparr>logs := logs w @ [(FATAL, ''Unknown node role: '' @ instance_role (lkp w))]\<rparr>)
          = (Inr (), w')"
    using e by (metis prod.collapse)
  have r: "instance_role (lkp w) \<notin> {''controller'', ''compute'', ''login''}"
    by (simp add: role)
  from unknown_role_completes [OF r before after] nc tr role show ?thesis
    by simp
qed

text \<open>
  Claim C2 as it was stated fails in one word: the record is not a warning. For the role
  \<^verbatim>\<open>gateway\<close> the dispatch returns normally, and the one record it logs has the level
  fatal.
\<close>

theorem unknown_role_logs_fatal:
  "fst (setup_role sample_env (sample_world ''gateway'' Map.empty)) = Inr ()
   \<and> map fst (logs (snd (setup_role sample_env (sample_world ''gateway'' Map.empty)))) = [FATAL]
   \<and> WARNING \<notin> set (map fst (logs (snd (setup_role sample_env (sample_world ''gateway'' Map.empty)))))"
  by (simp add: setup_role_def sample_defs log_at_def Let_def)

end
